theory Spec2Isabelle
  imports Complex_Main
begin

section \<open>The in-memory invoice store (server/storage.ts)\<close>

text \<open>
  This theory embeds the class \<open>MemStorage\<close> of \<open>server/storage.ts\<close> and the
  entity types of \<open>shared/schema.ts\<close>. A method that writes becomes a function from
  the store to the new store and the result, a method that only reads a function from
  the store to the result. The three sources of input that are not arguments of the
  methods are made arguments of the model:
  \<^item> \<open>randomUUID()\<close>: the identifiers it returns are given to the function;
  \<^item> \<open>new Date()\<close>: the clock reading is given as a number;
  \<^item> arithmetic on JavaScript numbers holding amounts of money (IEEE 754 doubles): the
    operations \<open>+\<close>, \<open>*\<close>, \<open>/\<close>, \<open>toFixed(2)\<close> and \<open>parseFloat\<close> are
    fields of a record \<open>arith\<close> that every function computing with money takes, so
    that a theorem stated for every \<open>arith\<close> holds for the doubles as well.

  The numbers of the invoice numbering are integers held in doubles; they are modelled
  as integers, with the rounding of a double written out where a sum or a parsed value
  may exceed 53 bits.
\<close>

subsection \<open>JavaScript Map: keyed, in insertion order\<close>

text \<open>
  \<open>Map.prototype.values()\<close> lists the values in the order in which their keys were
  first inserted; \<open>set\<close> on a present key replaces the value in place, on an absent
  key appends; \<open>delete\<close> says whether the key was present.
\<close>

type_synonym ('k, 'v) js_map = "('k \<times> 'v) list"

fun map_get :: "('k, 'v) js_map \<Rightarrow> 'k \<Rightarrow> 'v option" where
  "map_get [] k = None"
| "map_get ((k', v) # m) k = (if k' = k then Some v else map_get m k)"

fun map_set :: "'k \<Rightarrow> 'v \<Rightarrow> ('k, 'v) js_map \<Rightarrow> ('k, 'v) js_map" where
  "map_set k v [] = [(k, v)]"
| "map_set k v ((k', v') # m) = (if k' = k then (k, v) # m else (k', v') # map_set k v m)"

definition map_has :: "('k, 'v) js_map \<Rightarrow> 'k \<Rightarrow> bool" where
  "map_has m k = (k \<in> set (map fst m))"

definition map_delete :: "('k, 'v) js_map \<Rightarrow> 'k \<Rightarrow> ('k, 'v) js_map \<times> bool" where
  "map_delete m k = (filter (\<lambda>e. fst e \<noteq> k) m, map_has m k)"

definition map_values :: "('k, 'v) js_map \<Rightarrow> 'v list" where
  "map_values m = map snd m"

subsection \<open>JavaScript strings and integer-valued numbers\<close>

text \<open>
  A JavaScript string is a sequence of 16-bit code units; a \<open>char\<close> here is a code
  unit below 256, which covers ASCII and Latin-1 (the no-break space \<open>CHR 0xA0\<close> among
  them). \<open>replace_first\<close> is \<open>String.prototype.replace\<close> with a string pattern: only
  the first occurrence is replaced.
\<close>

definition startsWith :: "string \<Rightarrow> string \<Rightarrow> bool" where
  "startsWith s p = (take (length p) s = p)"

fun replace_first :: "string \<Rightarrow> string \<Rightarrow> string \<Rightarrow> string" where
  "replace_first [] pat rep = (if pat = [] then rep else [])"
| "replace_first (c # cs) pat rep =
     (if startsWith (c # cs) pat then rep @ drop (length pat) (c # cs)
      else c # replace_first cs pat rep)"

definition padStart :: "string \<Rightarrow> nat \<Rightarrow> char \<Rightarrow> string" where
  "padStart s n c = replicate (n - length s) c @ s"

definition digit_char :: "nat \<Rightarrow> char" where
  "digit_char d = ''0123456789'' ! d"

fun digits_of :: "nat \<Rightarrow> string" where
  "digits_of n = (if n < 10 then [digit_char n] else digits_of (n div 10) @ [digit_char (n mod 10)])"

declare digits_of.simps [simp del]

text \<open>
  \<open>String(n)\<close> for an integer-valued number: the decimal digits, with a minus sign.
  This is what JavaScript prints for every integer of magnitude up to \<open>2^53\<close>; above
  it JavaScript prints the shortest digits that read back as the same double, and from
  \<open>10^21\<close> on exponent notation. Every theorem below that depends on the digits
  printed bounds the number by \<open>2^53\<close>.
\<close>

definition js_String :: "int \<Rightarrow> string" where
  "js_String n = (if n < 0 then CHR ''-'' # digits_of (nat (- n)) else digits_of (nat n))"

text \<open>
  A JavaScript number is a double. \<open>to_double\<close> rounds an integer to the nearest
  integer with a 53-bit significand, ties to the even significand, as the conversion
  of a mathematical value to a Number does (below the overflow threshold).
\<close>

fun bit_length :: "nat \<Rightarrow> nat" where
  "bit_length n = (if n = 0 then 0 else Suc (bit_length (n div 2)))"

declare bit_length.simps [simp del]

definition to_double_nat :: "nat \<Rightarrow> nat" where
  "to_double_nat n =
     (if n \<le> 2 ^ 53 then n
      else let e = bit_length n - 53;
               q = n div 2 ^ e;
               r = n mod 2 ^ e;
               h = 2 ^ (e - 1)
           in (if h < r \<or> (r = h \<and> odd q) then q + 1 else q) * 2 ^ e)"

definition to_double :: "int \<Rightarrow> int" where
  "to_double x = (if x < 0 then - int (to_double_nat (nat (- x))) else int (to_double_nat (nat x)))"

text \<open>
  \<open>parseInt(s)\<close> with no radix: leading white space is skipped, a sign is read, a
  prefix \<open>0x\<close> or \<open>0X\<close> selects radix 16, and the longest run of digits of the radix
  is the value; the rest of the string is ignored. No digit at all gives \<open>NaN\<close>,
  which is \<open>None\<close> here. The white space of ECMAScript (WhiteSpace and LineTerminator)
  below 256 is tab, line feed, vertical tab, form feed, carriage return, space and the
  no-break space U+00A0.
\<close>

definition is_space :: "char \<Rightarrow> bool" where
  "is_space c = ((of_char c :: nat) \<in> {9, 10, 11, 12, 13, 32, 160})"

definition digit_value :: "char \<Rightarrow> nat option" where
  "digit_value c =
     (let n = (of_char c :: nat) in
      if 48 \<le> n \<and> n \<le> 57 then Some (n - 48)
      else if 97 \<le> n \<and> n \<le> 122 then Some (n - 87)
      else if 65 \<le> n \<and> n \<le> 90 then Some (n - 55)
      else None)"

definition radix_digit :: "nat \<Rightarrow> char \<Rightarrow> bool" where
  "radix_digit r c = (case digit_value c of None \<Rightarrow> False | Some v \<Rightarrow> v < r)"

definition radix_value :: "nat \<Rightarrow> string \<Rightarrow> nat" where
  "radix_value r ds =
     foldl (\<lambda>acc c. acc * r + (case digit_value c of None \<Rightarrow> 0 | Some v \<Rightarrow> v)) 0 ds"

definition parseInt :: "string \<Rightarrow> int option" where
  "parseInt s =
     (let s1 = dropWhile is_space s;
          neg = startsWith s1 ''-'';
          s2 = (if startsWith s1 ''-'' \<or> startsWith s1 ''+'' then drop 1 s1 else s1);
          hex = (startsWith s2 ''0x'' \<or> startsWith s2 ''0X'');
          radix = (if hex then 16 else 10);
          s3 = (if hex then drop 2 s2 else s2);
          z = takeWhile (radix_digit radix) s3
      in if z = [] then None
         else Some (to_double ((if neg then - 1 else 1) * int (radix_value radix z))))"

text \<open>\<open>.filter(num => !isNaN(num))\<close> on the parsed numbers.\<close>

fun not_NaN :: "int option list \<Rightarrow> int list" where
  "not_NaN [] = []"
| "not_NaN (None # xs) = not_NaN xs"
| "not_NaN (Some n # xs) = n # not_NaN xs"

text \<open>
  \<open>Math.max(...xs)\<close> of a non-empty list; the source calls it on no other. The bound
  that an engine puts on the number of arguments of a call is not modelled.
\<close>

fun Math_max :: "int \<Rightarrow> int list \<Rightarrow> int" where
  "Math_max x [] = x"
| "Math_max x (y # ys) = Math_max (max x y) ys"

subsection \<open>Arithmetic on amounts of money\<close>

record 'n arith =
  add :: "'n \<Rightarrow> 'n \<Rightarrow> 'n"
  mul :: "'n \<Rightarrow> 'n \<Rightarrow> 'n"
  quot :: "'n \<Rightarrow> 'n \<Rightarrow> 'n"
  lit :: "nat \<Rightarrow> 'n"
  truthy :: "'n \<Rightarrow> bool"
  toFixed2 :: "'n \<Rightarrow> string"
  parseFloat :: "string \<Rightarrow> 'n"

subsection \<open>Entities (shared/schema.ts)\<close>

text \<open>
  A nullable column is an \<open>option\<close>. The status of an invoice is a \<open>text\<close> column:
  any string. The decimal columns are strings in the inferred types.
\<close>

record Client =
  c_id :: string
  c_name :: string
  c_email :: string
  c_address :: "string option"
  c_createdAt :: "nat option"

record Invoice =
  inv_id :: string
  inv_invoiceNumber :: string
  inv_clientId :: "string option"
  inv_clientName :: string
  inv_clientEmail :: string
  inv_clientAddress :: "string option"
  inv_issueDate :: string
  inv_dueDate :: "string option"
  inv_status :: string
  inv_subtotal :: string
  inv_taxRate :: string
  inv_taxAmount :: string
  inv_total :: string
  inv_notes :: "string option"
  inv_createdAt :: "nat option"
  inv_updatedAt :: "nat option"

record 'n LineItem =
  li_id :: string
  li_invoiceId :: string
  li_description :: string
  li_quantity :: 'n
  li_rate :: string
  li_amount :: string

text \<open>
  The insert types omit the generated columns; a column with a default or a nullable
  column may be left out. A \<open>Partial\<close> type has every field optional: \<open>None\<close> is a
  field that the caller did not supply.
\<close>

record InsertClient =
  ic_name :: string
  ic_email :: string
  ic_address :: "string option"

record PartialClient =
  pc_name :: "string option"
  pc_email :: "string option"
  pc_address :: "string option option"

record PartialInvoice =
  pi_invoiceNumber :: "string option"
  pi_clientId :: "string option option"
  pi_clientName :: "string option"
  pi_clientEmail :: "string option"
  pi_clientAddress :: "string option option"
  pi_issueDate :: "string option"
  pi_dueDate :: "string option option"
  pi_status :: "string option"
  pi_subtotal :: "string option"
  pi_taxRate :: "string option"
  pi_taxAmount :: "string option"
  pi_total :: "string option"
  pi_notes :: "string option option"

record 'n InsertLineItem =
  ili_invoiceId :: string
  ili_description :: string
  ili_quantity :: "'n option"
  ili_rate :: "string option"
  ili_amount :: "string option"

record 'n PartialLineItem =
  pl_invoiceId :: "string option"
  pl_description :: "string option"
  pl_quantity :: "'n option"
  pl_rate :: "string option"
  pl_amount :: "string option"

record 'n RequestItem =
  it_description :: string
  it_quantity :: 'n
  it_rate :: 'n

record 'n CreateInvoiceRequest =
  req_clientName :: string
  req_clientEmail :: string
  req_clientAddress :: "string option"
  req_issueDate :: string
  req_dueDate :: "string option"
  req_taxRate :: 'n
  req_notes :: "string option"
  req_lineItems :: "'n RequestItem list"

type_synonym 'n InvoiceWithLineItems = "Invoice \<times> 'n LineItem list"

record InvoiceStats =
  totalInvoices :: nat
  totalRevenue :: string
  pendingInvoices :: nat
  overdueInvoices :: nat

subsection \<open>The store\<close>

record 'n MemStorage =
  clients :: "(string, Client) js_map"
  invoices :: "(string, Invoice) js_map"
  lineItems :: "(string, 'n LineItem) js_map"
  invoiceCounter :: int

definition new_MemStorage :: "'n MemStorage" where
  "new_MemStorage = \<lparr>clients = [], invoices = [], lineItems = [], invoiceCounter = 1\<rparr>"

text \<open>\<open>x || d\<close> on an optional string: the empty string and a missing value are falsy.\<close>

definition or_string :: "string option \<Rightarrow> string \<Rightarrow> string" where
  "or_string x d = (case x of None \<Rightarrow> d | Some s \<Rightarrow> if s = [] then d else s)"

definition or_null :: "string option \<Rightarrow> string option" where
  "or_null x = (case x of None \<Rightarrow> None | Some s \<Rightarrow> if s = [] then None else Some s)"

definition override :: "'a \<Rightarrow> 'a option \<Rightarrow> 'a" where
  "override old new = (case new of None \<Rightarrow> old | Some v \<Rightarrow> v)"

subsubsection \<open>Client operations\<close>

definition getClient :: "'n MemStorage \<Rightarrow> string \<Rightarrow> Client option" where
  "getClient st i = map_get (clients st) i"

definition getClientByEmail :: "'n MemStorage \<Rightarrow> string \<Rightarrow> Client option" where
  "getClientByEmail st email = find (\<lambda>client. c_email client = email) (map_values (clients st))"

definition createClient :: "'n MemStorage \<Rightarrow> InsertClient \<Rightarrow> string \<Rightarrow> nat \<Rightarrow> 'n MemStorage \<times> Client" where
  "createClient st insertClient i now =
     (let client = \<lparr>c_id = i, c_name = ic_name insertClient, c_email = ic_email insertClient,
                     c_address = or_null (ic_address insertClient), c_createdAt = Some now\<rparr>
      in (st\<lparr>clients := map_set i client (clients st)\<rparr>, client))"

definition updateClient :: "'n MemStorage \<Rightarrow> string \<Rightarrow> PartialClient \<Rightarrow> 'n MemStorage \<times> Client option" where
  "updateClient st i clientData =
     (case map_get (clients st) i of
        None \<Rightarrow> (st, None)
      | Some existing \<Rightarrow>
          (let updated = existing\<lparr>c_name := override (c_name existing) (pc_name clientData),
                                   c_email := override (c_email existing) (pc_email clientData),
                                   c_address := override (c_address existing) (pc_address clientData)\<rparr>
           in (st\<lparr>clients := map_set i updated (clients st)\<rparr>, Some updated)))"

definition deleteClient :: "'n MemStorage \<Rightarrow> string \<Rightarrow> 'n MemStorage \<times> bool" where
  "deleteClient st i = (st\<lparr>clients := fst (map_delete (clients st) i)\<rparr>, snd (map_delete (clients st) i))"

subsubsection \<open>Line item operations\<close>

definition getLineItemsByInvoiceId :: "'n MemStorage \<Rightarrow> string \<Rightarrow> 'n LineItem list" where
  "getLineItemsByInvoiceId st invoiceId =
     filter (\<lambda>item. li_invoiceId item = invoiceId) (map_values (lineItems st))"

definition createLineItem ::
  "'n arith \<Rightarrow> 'n MemStorage \<Rightarrow> 'n InsertLineItem \<Rightarrow> string \<Rightarrow> 'n MemStorage \<times> 'n LineItem" where
  "createLineItem ar st insertLineItem i =
     (let lineItem = \<lparr>li_id = i,
                       li_invoiceId = ili_invoiceId insertLineItem,
                       li_description = ili_description insertLineItem,
                       li_quantity = (case ili_quantity insertLineItem of
                                        None \<Rightarrow> lit ar 1
                                      | Some q \<Rightarrow> if truthy ar q then q else lit ar 1),
                       li_rate = or_string (ili_rate insertLineItem) ''0'',
                       li_amount = or_string (ili_amount insertLineItem) ''0''\<rparr>
      in (st\<lparr>lineItems := map_set i lineItem (lineItems st)\<rparr>, lineItem))"

definition updateLineItem ::
  "'n MemStorage \<Rightarrow> string \<Rightarrow> 'n PartialLineItem \<Rightarrow> 'n MemStorage \<times> 'n LineItem option" where
  "updateLineItem st i lineItemData =
     (case map_get (lineItems st) i of
        None \<Rightarrow> (st, None)
      | Some existing \<Rightarrow>
          (let updated = existing\<lparr>li_invoiceId := override (li_invoiceId existing) (pl_invoiceId lineItemData),
                                   li_description := override (li_description existing) (pl_description lineItemData),
                                   li_quantity := override (li_quantity existing) (pl_quantity lineItemData),
                                   li_rate := override (li_rate existing) (pl_rate lineItemData),
                                   li_amount := override (li_amount existing) (pl_amount lineItemData)\<rparr>
           in (st\<lparr>lineItems := map_set i updated (lineItems st)\<rparr>, Some updated)))"

definition deleteLineItem :: "'n MemStorage \<Rightarrow> string \<Rightarrow> 'n MemStorage \<times> bool" where
  "deleteLineItem st i =
     (st\<lparr>lineItems := fst (map_delete (lineItems st) i)\<rparr>, snd (map_delete (lineItems st) i))"

subsubsection \<open>Invoice operations\<close>

definition getInvoice :: "'n MemStorage \<Rightarrow> string \<Rightarrow> 'n InvoiceWithLineItems option" where
  "getInvoice st i =
     (case map_get (invoices st) i of
        None \<Rightarrow> None
      | Some invoice \<Rightarrow> Some (invoice, getLineItemsByInvoiceId st i))"

definition getInvoiceByNumber :: "'n MemStorage \<Rightarrow> string \<Rightarrow> 'n InvoiceWithLineItems option" where
  "getInvoiceByNumber st invoiceNumber =
     (case find (\<lambda>inv. inv_invoiceNumber inv = invoiceNumber) (map_values (invoices st)) of
        None \<Rightarrow> None
      | Some invoice \<Rightarrow> Some (invoice, getLineItemsByInvoiceId st (inv_id invoice)))"

definition existingNumbers :: "'n MemStorage \<Rightarrow> int list" where
  "existingNumbers st =
     not_NaN (map (\<lambda>num. parseInt (replace_first num ''INV-'' ''''))
                  (filter (\<lambda>num. startsWith num ''INV-'')
                          (map inv_invoiceNumber (map_values (invoices st)))))"

definition maxNumber :: "'n MemStorage \<Rightarrow> int" where
  "maxNumber st = (case existingNumbers st of [] \<Rightarrow> 0 | x # xs \<Rightarrow> Math_max x xs)"

definition getNextInvoiceNumber :: "'n MemStorage \<Rightarrow> string" where
  "getNextInvoiceNumber st = ''INV-'' @ padStart (js_String (to_double (maxNumber st + 1))) 3 CHR ''0''"

text \<open>
  The loop of \<open>createInvoice\<close> over the items with their amounts; \<open>rand k\<close> is the
  k-th identifier that \<open>randomUUID\<close> returns during the call.
\<close>

fun createLineItems ::
  "'n arith \<Rightarrow> (nat \<Rightarrow> string) \<Rightarrow> nat \<Rightarrow> string \<Rightarrow> 'n MemStorage \<Rightarrow> ('n RequestItem \<times> 'n) list
     \<Rightarrow> 'n MemStorage \<times> 'n LineItem list" where
  "createLineItems ar rand k i st [] = (st, [])"
| "createLineItems ar rand k i st ((item, amount) # rest) =
     (let (st1, lineItem) =
            createLineItem ar st
              \<lparr>ili_invoiceId = i, ili_description = it_description item,
               ili_quantity = Some (it_quantity item),
               ili_rate = Some (toFixed2 ar (it_rate item)),
               ili_amount = Some (toFixed2 ar amount)\<rparr> (rand k);
          (st2, created) = createLineItems ar rand (Suc k) i st1 rest
      in (st2, lineItem # created))"

definition createInvoice ::
  "'n arith \<Rightarrow> (nat \<Rightarrow> string) \<Rightarrow> nat \<Rightarrow> 'n MemStorage \<Rightarrow> 'n CreateInvoiceRequest
     \<Rightarrow> 'n MemStorage \<times> 'n InvoiceWithLineItems" where
  "createInvoice ar rand now st invoiceData =
     (let i = rand 0;
          invoiceNumber = getNextInvoiceNumber st;
          lineItemsWithAmounts =
            map (\<lambda>item. (item, mul ar (it_quantity item) (it_rate item))) (req_lineItems invoiceData);
          subtotal = foldl (\<lambda>sum (item, amount). add ar sum amount) (lit ar 0) lineItemsWithAmounts;
          taxAmount = mul ar subtotal (quot ar (req_taxRate invoiceData) (lit ar 100));
          total = add ar subtotal taxAmount;
          invoice = \<lparr>inv_id = i,
                     inv_invoiceNumber = invoiceNumber,
                     inv_clientId = None,
                     inv_clientName = req_clientName invoiceData,
                     inv_clientEmail = req_clientEmail invoiceData,
                     inv_clientAddress = or_null (req_clientAddress invoiceData),
                     inv_issueDate = req_issueDate invoiceData,
                     inv_dueDate = or_null (req_dueDate invoiceData),
                     inv_status = ''draft'',
                     inv_subtotal = toFixed2 ar subtotal,
                     inv_taxRate = toFixed2 ar (req_taxRate invoiceData),
                     inv_taxAmount = toFixed2 ar taxAmount,
                     inv_total = toFixed2 ar total,
                     inv_notes = or_null (req_notes invoiceData),
                     inv_createdAt = Some now,
                     inv_updatedAt = Some now\<rparr>;
          st1 = st\<lparr>invoices := map_set i invoice (invoices st)\<rparr>;
          (st2, createdLineItems) = createLineItems ar rand 1 i st1 lineItemsWithAmounts
      in (st2, (invoice, createdLineItems)))"

definition updateInvoice ::
  "'n MemStorage \<Rightarrow> string \<Rightarrow> PartialInvoice \<Rightarrow> nat \<Rightarrow> 'n MemStorage \<times> Invoice option" where
  "updateInvoice st i invoiceData now =
     (case map_get (invoices st) i of
        None \<Rightarrow> (st, None)
      | Some existing \<Rightarrow>
          (let updated = existing\<lparr>
                 inv_invoiceNumber := override (inv_invoiceNumber existing) (pi_invoiceNumber invoiceData),
                 inv_clientId := override (inv_clientId existing) (pi_clientId invoiceData),
                 inv_clientName := override (inv_clientName existing) (pi_clientName invoiceData),
                 inv_clientEmail := override (inv_clientEmail existing) (pi_clientEmail invoiceData),
                 inv_clientAddress := override (inv_clientAddress existing) (pi_clientAddress invoiceData),
                 inv_issueDate := override (inv_issueDate existing) (pi_issueDate invoiceData),
                 inv_dueDate := override (inv_dueDate existing) (pi_dueDate invoiceData),
                 inv_status := override (inv_status existing) (pi_status invoiceData),
                 inv_subtotal := override (inv_subtotal existing) (pi_subtotal invoiceData),
                 inv_taxRate := override (inv_taxRate existing) (pi_taxRate invoiceData),
                 inv_taxAmount := override (inv_taxAmount existing) (pi_taxAmount invoiceData),
                 inv_total := override (inv_total existing) (pi_total invoiceData),
                 inv_notes := override (inv_notes existing) (pi_notes invoiceData),
                 inv_updatedAt := Some now\<rparr>
           in (st\<lparr>invoices := map_set i updated (invoices st)\<rparr>, Some updated)))"

definition deleteInvoice :: "'n MemStorage \<Rightarrow> string \<Rightarrow> 'n MemStorage \<times> bool" where
  "deleteInvoice st i =
     (let items = getLineItemsByInvoiceId st i;
          remaining = foldl (\<lambda>m item. fst (map_delete m (li_id item))) (lineItems st) items
      in (st\<lparr>lineItems := remaining, invoices := fst (map_delete (invoices st) i)\<rparr>,
          snd (map_delete (invoices st) i)))"

subsubsection \<open>Statistics\<close>

definition getInvoiceStats :: "'n arith \<Rightarrow> 'n MemStorage \<Rightarrow> InvoiceStats" where
  "getInvoiceStats ar st =
     (let allInvoices = map_values (invoices st)
      in \<lparr>totalInvoices = length allInvoices,
          totalRevenue =
            toFixed2 ar (foldl (\<lambda>sum inv. add ar sum (parseFloat ar (inv_total inv))) (lit ar 0)
                               (filter (\<lambda>inv. inv_status inv = ''paid'') allInvoices)),
          pendingInvoices = length (filter (\<lambda>inv. inv_status inv = ''sent'') allInvoices),
          overdueInvoices = length (filter (\<lambda>inv. inv_status inv = ''overdue'') allInvoices)\<rparr>)"

subsection \<open>Sequences of store operations\<close>

text \<open>
  The methods that write to the store, as a datatype of requests; \<open>exec\<close> performs one
  and \<open>run\<close> a sequence of them from a given store. The methods that only read
  (\<open>getClient\<close>, \<open>getInvoice\<close>, \<open>getNextInvoiceNumber\<close>, \<open>getInvoiceStats\<close>, ...)
  leave every store as it is and are not requests here.
\<close>

datatype 'n request =
    CreateClient InsertClient string nat
  | UpdateClient string PartialClient
  | DeleteClient string
  | CreateInvoice "'n CreateInvoiceRequest" "nat \<Rightarrow> string" nat
  | UpdateInvoice string PartialInvoice nat
  | DeleteInvoice string
  | CreateLineItem "'n InsertLineItem" string
  | UpdateLineItem string "'n PartialLineItem"
  | DeleteLineItem string

fun exec :: "'n arith \<Rightarrow> 'n MemStorage \<Rightarrow> 'n request \<Rightarrow> 'n MemStorage" where
  "exec ar st (CreateClient c i now) = fst (createClient st c i now)"
| "exec ar st (UpdateClient i d) = fst (updateClient st i d)"
| "exec ar st (DeleteClient i) = fst (deleteClient st i)"
| "exec ar st (CreateInvoice r rand now) = fst (createInvoice ar rand now st r)"
| "exec ar st (UpdateInvoice i d now) = fst (updateInvoice st i d now)"
| "exec ar st (DeleteInvoice i) = fst (deleteInvoice st i)"
| "exec ar st (CreateLineItem l i) = fst (createLineItem ar st l i)"
| "exec ar st (UpdateLineItem i d) = fst (updateLineItem st i d)"
| "exec ar st (DeleteLineItem i) = fst (deleteLineItem st i)"

definition run :: "'n arith \<Rightarrow> 'n MemStorage \<Rightarrow> 'n request list \<Rightarrow> 'n MemStorage" where
  "run ar st rs = foldl (exec ar) st rs"

text \<open>A request that supplies one of the four monetary fields of an invoice.\<close>

fun writes_money :: "'n request \<Rightarrow> bool" where
  "writes_money (UpdateInvoice i d now) =
     (pi_subtotal d \<noteq> None \<or> pi_taxRate d \<noteq> None \<or> pi_taxAmount d \<noteq> None \<or> pi_total d \<noteq> None)"
| "writes_money _ = False"

subsection \<open>Exact decimal arithmetic\<close>

text \<open>
  An \<open>arith\<close> to compute with: rational numbers with \<open>NaN\<close> (\<open>None\<close>), every operation
  exact. \<open>toFixed(2)\<close> rounds the exact value to the nearest hundredth, a tie to the
  larger magnitude, and prints the sign of a negative number first, as ECMAScript
  defines it on the value of the double (below \<open>10^21\<close>). \<open>parseFloat\<close> reads white
  space, a sign, digits, a fraction and an exponent, and ignores what follows; the
  literal \<open>Infinity\<close> and division by zero have no value here and give \<open>None\<close>.
  The doubles differ from it by their rounding errors. The inputs at which a claim is
  refuted below are chosen so that the doubles print the same strings: the operations
  on them are exact on doubles (a product by 1, a sum with 0, a doubling, sums and
  products of small integers), and no value is near a rounding boundary of \<open>toFixed\<close>.
\<close>

definition exact_binop :: "(rat \<Rightarrow> rat \<Rightarrow> rat) \<Rightarrow> rat option \<Rightarrow> rat option \<Rightarrow> rat option" where
  "exact_binop f a b =
     (case a of None \<Rightarrow> None | Some x \<Rightarrow> (case b of None \<Rightarrow> None | Some y \<Rightarrow> Some (f x y)))"

definition exact_divide :: "rat option \<Rightarrow> rat option \<Rightarrow> rat option" where
  "exact_divide a b = (if b = Some 0 then None else exact_binop (\<lambda>x y. x / y) a b)"

definition fixed2 :: "rat \<Rightarrow> string" where
  "fixed2 x =
     (let n = nat \<lfloor>x * 100 + 1 / 2\<rfloor>
      in digits_of (n div 100) @ ''.'' @ padStart (digits_of (n mod 100)) 2 CHR ''0'')"

definition exact_toFixed2 :: "rat option \<Rightarrow> string" where
  "exact_toFixed2 a =
     (case a of None \<Rightarrow> ''NaN''
      | Some x \<Rightarrow> if x < 0 then CHR ''-'' # fixed2 (- x) else fixed2 x)"

definition strip_sign :: "string \<Rightarrow> string" where
  "strip_sign s = (if startsWith s ''-'' \<or> startsWith s ''+'' then drop 1 s else s)"

definition exact_parseFloat :: "string \<Rightarrow> rat option" where
  "exact_parseFloat s =
     (let s1 = dropWhile is_space s;
          neg = startsWith s1 ''-'';
          s2 = strip_sign s1;
          ip = takeWhile (radix_digit 10) s2;
          s3 = dropWhile (radix_digit 10) s2;
          fp = (if startsWith s3 ''.'' then takeWhile (radix_digit 10) (drop 1 s3) else []);
          s4 = (if startsWith s3 ''.'' then dropWhile (radix_digit 10) (drop 1 s3) else s3);
          s5 = (if startsWith s4 ''e'' \<or> startsWith s4 ''E'' then drop 1 s4 else []);
          ed = takeWhile (radix_digit 10) (strip_sign s5);
          m = of_nat (radix_value 10 ip) + of_nat (radix_value 10 fp) / 10 ^ length fp;
          v = (if startsWith s5 ''-'' then m / 10 ^ radix_value 10 ed else m * 10 ^ radix_value 10 ed)
      in if ip = [] \<and> fp = [] then None else Some (if neg then - v else v))"

definition exact :: "rat option arith" where
  "exact = \<lparr>add = exact_binop (\<lambda>x y. x + y),
            mul = exact_binop (\<lambda>x y. x * y),
            quot = exact_divide,
            lit = (\<lambda>n. Some (of_nat n)),
            truthy = (\<lambda>a. a \<noteq> None \<and> a \<noteq> Some 0),
            toFixed2 = exact_toFixed2,
            parseFloat = exact_parseFloat\<rparr>"

subsection \<open>The specification's wording of the numbering\<close>

text \<open>
  Following the specification: the invoice numbers with the prefix \<open>INV-\<close>, their
  suffixes parsed, the maximum of the parsed values (0 if there is none), and the
  successor of the maximum, as an integer, printed with the prefix and padded with
  zeros to three characters.
\<close>

definition spec_numbers :: "'n MemStorage \<Rightarrow> int list" where
  "spec_numbers st =
     List.map_filter (\<lambda>num. if take 4 num = ''INV-'' then parseInt (drop 4 num) else None)
       (map inv_invoiceNumber (map_values (invoices st)))"

definition spec_max :: "'n MemStorage \<Rightarrow> int" where
  "spec_max st = (if spec_numbers st = [] then 0 else Max (set (spec_numbers st)))"


text \<open>The form \<open>INV-NNN\<close>: the prefix, then decimal digits, at least three.\<close>

definition inv_form :: "string \<Rightarrow> bool" where
  "inv_form s = (take 4 s = ''INV-'' \<and> 3 \<le> length (drop 4 s) \<and> list_all (radix_digit 10) (drop 4 s))"

text \<open>A numeric suffix: decimal digits and nothing else.\<close>

definition numeric :: "string \<Rightarrow> bool" where
  "numeric s = (s \<noteq> [] \<and> list_all (radix_digit 10) s)"

text \<open>
  The parsed numbers as claim C6 words them: of the invoice numbers with the prefix,
  those with a numeric suffix are parsed, every other one is ignored.
\<close>

definition claimed_numbers :: "'n MemStorage \<Rightarrow> int list" where
  "claimed_numbers st =
     List.map_filter
       (\<lambda>num. if take 4 num = ''INV-'' \<and> numeric (drop 4 num) then parseInt (drop 4 num) else None)
       (map inv_invoiceNumber (map_values (invoices st)))"

subsection \<open>The specification's wording of the totals\<close>

text \<open>
  Following the specification: the amount of an item is quantity times rate, the
  subtotal is the sum of the amounts (from 0, in the order of the items), the tax amount
  is the subtotal times a hundredth of the tax rate, and the total is their sum. None
  of them is rounded.
\<close>

definition sum_amounts :: "'n arith \<Rightarrow> 'n list \<Rightarrow> 'n" where
  "sum_amounts ar xs = foldl (add ar) (lit ar 0) xs"

definition spec_amount :: "'n arith \<Rightarrow> 'n RequestItem \<Rightarrow> 'n" where
  "spec_amount ar item = mul ar (it_quantity item) (it_rate item)"

definition spec_subtotal :: "'n arith \<Rightarrow> 'n CreateInvoiceRequest \<Rightarrow> 'n" where
  "spec_subtotal ar r = sum_amounts ar (map (spec_amount ar) (req_lineItems r))"

definition spec_taxAmount :: "'n arith \<Rightarrow> 'n CreateInvoiceRequest \<Rightarrow> 'n" where
  "spec_taxAmount ar r = mul ar (spec_subtotal ar r) (quot ar (req_taxRate r) (lit ar 100))"

definition spec_total :: "'n arith \<Rightarrow> 'n CreateInvoiceRequest \<Rightarrow> 'n" where
  "spec_total ar r = add ar (spec_subtotal ar r) (spec_taxAmount ar r)"

text \<open>
  The specification's formula \<open>round(subtotal + round(subtotal \<times> taxRate / 100))\<close>,
  where rounding is \<open>toFixed(2)\<close> and a rounded value is read back as a number.
\<close>

definition claimed_total :: "'n arith \<Rightarrow> 'n \<Rightarrow> 'n \<Rightarrow> string" where
  "claimed_total ar subtotal taxRate =
     toFixed2 ar (add ar subtotal
       (parseFloat ar (toFixed2 ar (quot ar (mul ar subtotal taxRate) (lit ar 100)))))"

text \<open>
  The specification's invariant on the stored fields of an invoice:
  \<open>total == subtotal + taxAmount\<close> and \<open>taxAmount == subtotal * taxRate / 100\<close>, both
  rounded to 2 decimal places.
\<close>

definition claimed_invariant :: "'n arith \<Rightarrow> Invoice \<Rightarrow> bool" where
  "claimed_invariant ar invoice =
     (inv_total invoice =
        toFixed2 ar (add ar (parseFloat ar (inv_subtotal invoice)) (parseFloat ar (inv_taxAmount invoice))) \<and>
      inv_taxAmount invoice =
        toFixed2 ar (quot ar (mul ar (parseFloat ar (inv_subtotal invoice)) (parseFloat ar (inv_taxRate invoice)))
                             (lit ar 100)))"

text \<open>
  What the stored fields do satisfy: they are the renderings of one computation on
  an unrounded subtotal and a tax rate.
\<close>

definition computed_money :: "'n arith \<Rightarrow> Invoice \<Rightarrow> bool" where
  "computed_money ar invoice =
     (\<exists>s r. inv_subtotal invoice = toFixed2 ar s \<and>
            inv_taxRate invoice = toFixed2 ar r \<and>
            inv_taxAmount invoice = toFixed2 ar (mul ar s (quot ar r (lit ar 100))) \<and>
            inv_total invoice = toFixed2 ar (add ar s (mul ar s (quot ar r (lit ar 100)))))"

subsection \<open>The representation invariant of the line items\<close>

text \<open>
  A Map has one entry for a key, and every line item is stored under its own \<open>id\<close>:
  \<open>createLineItem\<close> sets the key and the field to the same identifier, and no
  \<open>Partial<InsertLineItem>\<close> has an \<open>id\<close>.
\<close>

definition keyed_by_id :: "(string, 'n LineItem) js_map \<Rightarrow> bool" where
  "keyed_by_id m = (distinct (map fst m) \<and> (\<forall>e \<in> set m. li_id (snd e) = fst e))"

subsection \<open>Requests used as concrete inputs\<close>

definition uuids :: "string \<Rightarrow> nat \<Rightarrow> string" where
  "uuids p k = p @ replicate k CHR ''i''"

definition one_item_request :: "rat \<Rightarrow> rat \<Rightarrow> rat \<Rightarrow> rat option CreateInvoiceRequest" where
  "one_item_request q r t =
     \<lparr>req_clientName = ''Ada'', req_clientEmail = ''ada@example.com'', req_clientAddress = None,
      req_issueDate = ''2024-01-01'', req_dueDate = None, req_taxRate = Some t, req_notes = None,
      req_lineItems = [\<lparr>it_description = ''work'', it_quantity = Some q, it_rate = Some r\<rparr>]\<rparr>"

definition no_change :: PartialInvoice where
  "no_change =
     \<lparr>pi_invoiceNumber = None, pi_clientId = None, pi_clientName = None, pi_clientEmail = None,
      pi_clientAddress = None, pi_issueDate = None, pi_dueDate = None, pi_status = None,
      pi_subtotal = None, pi_taxRate = None, pi_taxAmount = None, pi_total = None, pi_notes = None\<rparr>"

text \<open>
  A store holding one invoice whose number was set by \<open>updateInvoice\<close>: the invoice is
  created, then renumbered.
\<close>

definition renumbered :: "string \<Rightarrow> rat option MemStorage" where
  "renumbered num =
     run exact new_MemStorage
       [CreateInvoice (one_item_request 1 10 0) (uuids ''a'') 1,
        UpdateInvoice ''a'' (no_change\<lparr>pi_invoiceNumber := Some num\<rparr>) 2]"

definition blank_invoice :: "string \<Rightarrow> string \<Rightarrow> Invoice" where
  "blank_invoice i num =
     \<lparr>inv_id = i, inv_invoiceNumber = num, inv_clientId = None, inv_clientName = ''Ada'',
      inv_clientEmail = ''ada@example.com'', inv_clientAddress = None, inv_issueDate = ''2024-01-01'',
      inv_dueDate = None, inv_status = ''draft'', inv_subtotal = ''0.00'', inv_taxRate = ''0.00'',
      inv_taxAmount = ''0.00'', inv_total = ''0.00'', inv_notes = None, inv_createdAt = Some 1,
      inv_updatedAt = Some 1\<rparr>"

section \<open>Lemmas about the building blocks\<close>

subsection \<open>Digits, parsing and rounding\<close>

lemma digits_of_small: "n < 10 \<Longrightarrow> digits_of n = [digit_char n]"
  by (simp add: digits_of.simps)

lemma digits_of_large: "10 \<le> n \<Longrightarrow> digits_of n = digits_of (n div 10) @ [digit_char (n mod 10)]"
  by (subst digits_of.simps) simp

lemma floor_rat_numeral: "\<lfloor>numeral a / numeral b :: rat\<rfloor> = numeral a div numeral b"
  by (metis floor_divide_of_int_eq of_int_numeral)

lemma floor_rat_one: "\<lfloor>1 / numeral b :: rat\<rfloor> = 1 div numeral b"
  by (metis floor_divide_of_int_eq of_int_numeral of_int_1)

lemma replicate_numeral: "replicate (numeral k) c = c # replicate (pred_numeral k) c"
  by (simp add: numeral_eq_Suc)

lemmas eval_digits = digits_of_small digits_of_large digit_char_def padStart_def replicate_numeral
lemmas eval_parse = startsWith_def is_space_def radix_digit_def digit_value_def radix_value_def Let_def

lemma digit_value_digit_char: "d < 10 \<Longrightarrow> digit_value (digit_char d) = Some d"
proof -
  assume "d < 10"
  then have "d \<in> {0, 1, 2, 3, 4, 5, 6, 7, 8, 9}" by auto
  then show ?thesis
    by (auto simp: digit_char_def digit_value_def)
qed

lemma radix_value_snoc: "radix_value r (ds @ [c]) = radix_value r ds * r + (case digit_value c of None \<Rightarrow> 0 | Some v \<Rightarrow> v)"
  by (simp add: radix_value_def)

lemma radix_value_digits_of: "radix_value 10 (digits_of n) = n"
proof (induction n rule: digits_of.induct)
  case (1 n)
  show ?case
  proof (cases "n < 10")
    case True
    then show ?thesis by (simp add: digits_of_small radix_value_def digit_value_digit_char)
  next
    case False
    then have "radix_value 10 (digits_of (n div 10)) = n div 10" using 1 by simp
    with False show ?thesis
      by (simp add: digits_of_large radix_value_snoc digit_value_digit_char)
  qed
qed

lemma digits_of_decimal: "c \<in> set (digits_of n) \<Longrightarrow> radix_digit 10 c"
proof (induction n rule: digits_of.induct)
  case (1 n)
  show ?case
  proof (cases "n < 10")
    case True
    with 1(2) show ?thesis by (auto simp: digits_of_small radix_digit_def digit_value_digit_char)
  next
    case False
    with 1 show ?thesis
      by (auto simp: digits_of_large radix_digit_def digit_value_digit_char)
  qed
qed

lemma digits_of_nonempty: "digits_of n \<noteq> []"
  by (subst digits_of.simps) simp

lemma radix_value_zeros: "radix_value 10 (replicate k CHR ''0'' @ ds) = radix_value 10 ds"
  by (induction k) (simp_all add: radix_value_def digit_value_def)

lemma radix_digit_not_space: "radix_digit r c \<Longrightarrow> \<not> is_space c"
  by (auto simp: radix_digit_def digit_value_def is_space_def Let_def split: if_splits option.splits)

lemma parseInt_decimal:
  assumes "ds \<noteq> []" and "\<forall>c \<in> set ds. radix_digit 10 c"
  shows "parseInt ds = Some (to_double (int (radix_value 10 ds)))"
proof -
  obtain c cs where ds: "ds = c # cs" using assms(1) by (cases ds) auto
  have c: "radix_digit 10 c" using assms(2) ds by simp
  have sp: "dropWhile is_space ds = ds" using c ds by (simp add: radix_digit_not_space)
  have sg: "\<not> startsWith ds ''-''" "\<not> startsWith ds ''+''"
    using c ds by (auto simp: startsWith_def radix_digit_def digit_value_def)
  have nx: "\<not> radix_digit 10 CHR ''x''" "\<not> radix_digit 10 CHR ''X''"
    by (simp_all add: radix_digit_def digit_value_def)
  have hx: "\<not> startsWith ds ''0x''" "\<not> startsWith ds ''0X''"
  proof -
    have "x \<in> set ds" if "startsWith ds [CHR ''0'', x]" for x
      using that by (cases cs) (auto simp: startsWith_def ds)
    then show "\<not> startsWith ds ''0x''" "\<not> startsWith ds ''0X''"
      using assms(2) nx by blast+
  qed
  have tw: "takeWhile (radix_digit 10) ds = ds" using assms(2) by simp
  show ?thesis
    using sg hx assms(1) by (simp add: parseInt_def sp tw Let_def)
qed

lemma to_double_exact: "\<bar>x\<bar> \<le> 2 ^ 53 \<Longrightarrow> to_double x = x"
  by (auto simp: to_double_def to_double_nat_def)

lemma startsWith_INV: "startsWith s ''INV-'' \<longleftrightarrow> take 4 s = ''INV-''"
  by (simp add: startsWith_def eval_nat_numeral)

lemma replace_prefix: "startsWith s ''INV-'' \<Longrightarrow> replace_first s ''INV-'' [] = drop 4 s"
  by (cases s) (auto simp: startsWith_def eval_nat_numeral)

lemma not_NaN_map_filter: "not_NaN xs = List.map_filter (\<lambda>x. x) xs"
  by (induction xs rule: not_NaN.induct) simp_all

lemma existingNumbers_spec: "existingNumbers st = spec_numbers st"
proof -
  have "not_NaN (map (\<lambda>num. parseInt (replace_first num ''INV-'' [])) (filter (\<lambda>num. startsWith num ''INV-'') ns))
        = List.map_filter (\<lambda>num. if take 4 num = ''INV-'' then parseInt (drop 4 num) else None) ns" for ns
  proof (induction ns)
    case Nil
    show ?case by simp
  next
    case (Cons n ns)
    show ?case
    proof (cases "startsWith n ''INV-''")
      case True
      then have "take 4 n = ''INV-''" by (simp add: startsWith_INV)
      with True Cons show ?thesis
        by (cases "parseInt (drop 4 n)") (simp_all add: replace_prefix)
    next
      case False
      then have "take 4 n \<noteq> ''INV-''" by (simp add: startsWith_INV)
      with False Cons show ?thesis by simp
    qed
  qed
  then show ?thesis by (simp add: existingNumbers_def spec_numbers_def)
qed

lemma Math_max_Max: "Math_max x xs = Max (set (x # xs))"
proof (induction xs arbitrary: x)
  case Nil
  show ?case by simp
next
  case (Cons y ys)
  have "Max (set (max x y # ys)) = Max (set (x # y # ys))"
    by (cases "ys = []") (simp_all add: max.assoc)
  with Cons show ?case by simp
qed

lemma maxNumber_spec: "maxNumber st = spec_max st"
  by (cases "spec_numbers st") (simp_all add: maxNumber_def spec_max_def existingNumbers_spec Math_max_Max)

lemma maxNumber_upper: "n \<in> set (existingNumbers st) \<Longrightarrow> n \<le> maxNumber st"
  by (cases "spec_numbers st") (auto simp: maxNumber_spec spec_max_def existingNumbers_spec)

subsection \<open>The store under the operations, and the numbering\<close>

lemma createLineItems_invoices: "invoices (fst (createLineItems ar rand k i st xs)) = invoices st"
  by (induction ar rand k i st xs rule: createLineItems.induct)
     (simp_all add: createLineItem_def split_def Let_def)

lemma createLineItems_clients: "clients (fst (createLineItems ar rand k i st xs)) = clients st"
  by (induction ar rand k i st xs rule: createLineItems.induct)
     (simp_all add: createLineItem_def split_def Let_def)

lemma renumbered_numbers: "map inv_invoiceNumber (map_values (invoices (renumbered num))) = [num]"
  by (simp add: renumbered_def run_def createInvoice_def updateInvoice_def uuids_def split_def Let_def
      createLineItems_invoices map_values_def override_def no_change_def new_MemStorage_def)

lemma getNext_numbers:
  "map inv_invoiceNumber (map_values (invoices st)) = map inv_invoiceNumber (map_values (invoices st'))
   \<Longrightarrow> getNextInvoiceNumber st = getNextInvoiceNumber st'"
  by (simp add: getNextInvoiceNumber_def maxNumber_def existingNumbers_def)

lemma padStart_decimal:
  assumes "\<forall>c \<in> set s. radix_digit 10 c"
  shows "\<forall>c \<in> set (padStart s n CHR ''0''). radix_digit 10 c"
proof -
  have "radix_digit 10 CHR ''0''" by (simp add: radix_digit_def digit_value_def)
  with assms show ?thesis by (auto simp: padStart_def)
qed

lemma padStart_length: "n \<le> length (padStart s n c)"
  by (simp add: padStart_def)

lemma next_number_digits:
  assumes "- 1 \<le> maxNumber st" and "maxNumber st < 2 ^ 53"
  shows "getNextInvoiceNumber st = ''INV-'' @ padStart (digits_of (nat (maxNumber st + 1))) 3 CHR ''0''"
proof -
  have "to_double (maxNumber st + 1) = maxNumber st + 1"
    using assms by (intro to_double_exact) simp
  then show ?thesis
    using assms by (simp add: getNextInvoiceNumber_def js_String_def)
qed

lemma parseInt_padded:
  assumes "int k \<le> 2 ^ 53"
  shows "parseInt (padStart (digits_of k) 3 CHR ''0'') = Some (int k)"
proof -
  let ?ds = "padStart (digits_of k) 3 CHR ''0''"
  have dec: "\<forall>c \<in> set ?ds. radix_digit 10 c"
    by (rule padStart_decimal) (simp add: digits_of_decimal)
  have ne: "?ds \<noteq> []"
    by (simp add: padStart_def digits_of_nonempty)
  have val: "radix_value 10 ?ds = k"
    by (simp add: padStart_def radix_value_zeros radix_value_digits_of)
  have "to_double (int k) = int k"
    using assms by (intro to_double_exact) simp
  with parseInt_decimal [OF ne dec] val show ?thesis by simp
qed

lemma map_filter_member: "f x = Some y \<Longrightarrow> x \<in> set xs \<Longrightarrow> y \<in> set (List.map_filter f xs)"
  by (induction xs) (auto split: option.splits)

lemma spec_numbers_member:
  assumes "num \<in> set (map inv_invoiceNumber (map_values (invoices st)))"
    and "take 4 num = ''INV-''" and "parseInt (drop 4 num) = Some n"
  shows "n \<in> set (existingNumbers st)"
  unfolding existingNumbers_spec spec_numbers_def
  by (rule map_filter_member [where x = num]) (use assms in simp_all)

lemma existingNumbers_renumbered:
  "existingNumbers (renumbered num) =
     (if startsWith num ''INV-'' then not_NaN [parseInt (drop 4 num)] else [])"
  by (simp add: existingNumbers_def renumbered_numbers replace_prefix)

lemmas eval_next = getNextInvoiceNumber_def maxNumber_def existingNumbers_renumbered startsWith_INV
  js_String_def parseInt_def eval_parse eval_digits

subsection \<open>createInvoice\<close>

lemma map_get_set_same: "map_get (map_set k v m) k = Some v"
  by (induction m) auto

lemma map_get_set_other: "k' \<noteq> k \<Longrightarrow> map_get (map_set k v m) k' = map_get m k'"
  by (induction m) auto

lemma foldl_amounts:
  "foldl (\<lambda>sum p. add ar sum (snd p)) z
     (map (\<lambda>item. (item, mul ar (it_quantity item) (it_rate item))) xs)
   = foldl (add ar) z (map (spec_amount ar) xs)"
  by (induction xs arbitrary: z) (simp_all add: spec_amount_def)



lemma createInvoice_invoice:
  "fst (snd (createInvoice ar rand now st r)) =
     \<lparr>inv_id = rand 0,
      inv_invoiceNumber = getNextInvoiceNumber st,
      inv_clientId = None,
      inv_clientName = req_clientName r,
      inv_clientEmail = req_clientEmail r,
      inv_clientAddress = or_null (req_clientAddress r),
      inv_issueDate = req_issueDate r,
      inv_dueDate = or_null (req_dueDate r),
      inv_status = ''draft'',
      inv_subtotal = toFixed2 ar (spec_subtotal ar r),
      inv_taxRate = toFixed2 ar (req_taxRate r),
      inv_taxAmount = toFixed2 ar (spec_taxAmount ar r),
      inv_total = toFixed2 ar (spec_total ar r),
      inv_notes = or_null (req_notes r),
      inv_createdAt = Some now,
      inv_updatedAt = Some now\<rparr>"
  by (simp add: createInvoice_def split_def Let_def spec_total_def spec_taxAmount_def spec_subtotal_def
      sum_amounts_def foldl_amounts)

lemma createInvoice_invoices:
  "invoices (fst (createInvoice ar rand now st r)) =
     map_set (rand 0) (fst (snd (createInvoice ar rand now st r))) (invoices st)"
  by (simp add: createInvoice_def split_def Let_def createLineItems_invoices)

lemma createInvoice_clients: "clients (fst (createInvoice ar rand now st r)) = clients st"
  by (simp add: createInvoice_def split_def Let_def createLineItems_clients)



lemmas eval_exact = exact_def exact_binop_def exact_divide_def exact_toFixed2_def fixed2_def
  floor_rat_numeral floor_rat_one eval_digits

lemmas eval_spec = spec_total_def spec_taxAmount_def spec_subtotal_def spec_amount_def sum_amounts_def
  one_item_request_def

lemma map_get_None: "map_get m k = None \<longleftrightarrow> k \<notin> fst ` set m"
  by (induction m) (auto split: if_splits)

lemma map_get_Some_mem: "map_get m k = Some v \<Longrightarrow> (k, v) \<in> set m"
  by (induction m) (auto split: if_splits)

lemma map_delete_absent: "map_get m k = None \<Longrightarrow> map_delete m k = (m, False)"
proof -
  assume "map_get m k = None"
  then have absent: "k \<notin> fst ` set m" by (simp add: map_get_None)
  then have "filter (\<lambda>e. fst e \<noteq> k) m = m" by (intro filter_True) auto
  with absent show ?thesis by (simp add: map_delete_def map_has_def)
qed

lemma map_get_delete: "map_get (fst (map_delete m k)) k = None"
  by (auto simp: map_delete_def map_get_None)

lemma set_map_set: "set (map_set k v m) \<subseteq> insert (k, v) (set m)"
  by (induction m) (auto split: if_splits)

lemma keys_map_set:
  "map fst (map_set k v m) = (if k \<in> set (map fst m) then map fst m else map fst m @ [k])"
  by (induction m) force+

lemma distinct_map_set: "distinct (map fst m) \<Longrightarrow> distinct (map fst (map_set k v m))"
  by (simp add: keys_map_set)

lemma values_map_set: "set (map_values (map_set k v m)) \<subseteq> insert v (set (map_values m))"
  using set_map_set [of k v m] by (fastforce simp: map_values_def)

lemma values_map_delete: "set (map_values (fst (map_delete m k))) \<subseteq> set (map_values m)"
  by (auto simp: map_values_def map_delete_def)

subsection \<open>The monetary fields under the operations\<close>

lemma createInvoice_computed_money: "computed_money ar (fst (snd (createInvoice ar rand now st r)))"
  unfolding computed_money_def createInvoice_invoice
  by (rule exI [of _ "spec_subtotal ar r"], rule exI [of _ "req_taxRate r"])
     (simp add: spec_total_def spec_taxAmount_def)

lemma updateInvoice_invoices:
  "map_get (invoices st) i = Some existing \<Longrightarrow>
   invoices (fst (updateInvoice st i d now)) = map_set i (the (snd (updateInvoice st i d now))) (invoices st)"
  by (simp add: updateInvoice_def Let_def)

lemma updateInvoice_computed_money:
  assumes "map_get (invoices st) i = Some existing" and "computed_money ar existing"
    and "\<not> writes_money (UpdateInvoice i d now)"
  shows "computed_money ar (the (snd (updateInvoice st i d now)))"
  using assms by (simp add: updateInvoice_def Let_def computed_money_def override_def)

lemma exec_computed_money:
  assumes ok: "\<forall>invoice \<in> set (map_values (invoices st)). computed_money ar invoice"
    and quiet: "\<not> writes_money rq"
  shows "\<forall>invoice \<in> set (map_values (invoices (exec ar st rq))). computed_money ar invoice"
proof (cases rq)
  case (CreateInvoice r rand now)
  show ?thesis
    using ok values_map_set [of "rand 0" "fst (snd (createInvoice ar rand now st r))" "invoices st"]
      createInvoice_computed_money [of ar rand now st r]
    by (auto simp: CreateInvoice createInvoice_invoices)
next
  case (UpdateInvoice i d now)
  show ?thesis
  proof (cases "map_get (invoices st) i")
    case None
    with ok show ?thesis by (simp add: UpdateInvoice updateInvoice_def)
  next
    case (Some existing)
    then have "existing \<in> set (map_values (invoices st))"
      by (force dest: map_get_Some_mem simp: map_values_def)
    with ok have "computed_money ar existing" by simp
    from updateInvoice_computed_money [OF Some this] quiet
    have "computed_money ar (the (snd (updateInvoice st i d now)))" by (simp add: UpdateInvoice)
    then show ?thesis
      using ok values_map_set [of i "the (snd (updateInvoice st i d now))" "invoices st"]
      by (auto simp: UpdateInvoice updateInvoice_invoices [OF Some])
  qed
next
  case (DeleteInvoice i)
  show ?thesis
    using ok values_map_delete [of "invoices st" i]
    by (auto simp: DeleteInvoice deleteInvoice_def Let_def)
qed (use ok in \<open>simp_all add: createClient_def updateClient_def deleteClient_def createLineItem_def
      updateLineItem_def deleteLineItem_def Let_def split: option.splits\<close>)

lemma run_computed_money:
  assumes "\<forall>invoice \<in> set (map_values (invoices st)). computed_money ar invoice"
    and "\<forall>rq \<in> set rs. \<not> writes_money rq"
  shows "\<forall>invoice \<in> set (map_values (invoices (run ar st rs))). computed_money ar invoice"
  using assms unfolding run_def
proof (induction rs arbitrary: st)
  case Nil
  then show ?case by simp
next
  case (Cons rq rs)
  have "\<forall>invoice \<in> set (map_values (invoices (exec ar st rq))). computed_money ar invoice"
    using Cons.prems by (intro exec_computed_money) simp_all
  then show ?case using Cons.prems by (simp add: Cons.IH)
qed

subsection \<open>The line items under the operations\<close>

lemma keyed_map_set:
  assumes "keyed_by_id m" and "li_id v = k"
  shows "keyed_by_id (map_set k v m)"
  using assms set_map_set [of k v m]
  by (auto simp: keyed_by_id_def distinct_map_set simp del: map_set.simps)

lemma keyed_filter: "keyed_by_id m \<Longrightarrow> keyed_by_id (filter P m)"
  by (simp add: keyed_by_id_def distinct_map_filter)

lemma foldl_delete:
  "foldl (\<lambda>m item. fst (map_delete m (li_id item))) m items
   = filter (\<lambda>e. fst e \<notin> li_id ` set items) m"
proof (induction items arbitrary: m)
  case Nil
  show ?case by simp
next
  case (Cons item items)
  have "filter (\<lambda>e. fst e \<notin> li_id ` set items) (filter (\<lambda>e. fst e \<noteq> li_id item) m)
        = filter (\<lambda>e. fst e \<notin> li_id ` set (item # items)) m"
    unfolding filter_filter by (rule filter_cong) auto
  with Cons.IH [of "fst (map_delete m (li_id item))"] show ?case
    by (simp add: map_delete_def)
qed

lemma createLineItems_keyed:
  "keyed_by_id (lineItems st) \<Longrightarrow> keyed_by_id (lineItems (fst (createLineItems ar rand k i st xs)))"
proof (induction ar rand k i st xs rule: createLineItems.induct)
  case (1 ar rand k i st)
  then show ?case by simp
next
  case (2 ar rand k i st item amount rest)
  let ?c = "createLineItem ar st
              \<lparr>ili_invoiceId = i, ili_description = it_description item,
               ili_quantity = Some (it_quantity item),
               ili_rate = Some (toFixed2 ar (it_rate item)),
               ili_amount = Some (toFixed2 ar amount)\<rparr> (rand k)"
  have "keyed_by_id (lineItems (fst ?c))"
    using "2.prems" by (simp add: createLineItem_def Let_def keyed_map_set)
  from "2.IH" [OF refl prod.collapse this]
  show ?case by (simp add: split_def Let_def)
qed

lemma exec_keyed:
  assumes "keyed_by_id (lineItems st)"
  shows "keyed_by_id (lineItems (exec ar st rq))"
proof (cases rq)
  case (CreateInvoice r rand now)
  have "keyed_by_id (lineItems (st\<lparr>invoices := m\<rparr>))" for m
    using assms by simp
  then show ?thesis
    by (simp add: CreateInvoice createInvoice_def split_def Let_def createLineItems_keyed)
next
  case (DeleteInvoice i)
  show ?thesis
    using assms by (simp add: DeleteInvoice deleteInvoice_def Let_def foldl_delete keyed_filter)
next
  case (CreateLineItem l i)
  show ?thesis
    using assms by (simp add: CreateLineItem createLineItem_def Let_def keyed_map_set)
next
  case (UpdateLineItem i d)
  show ?thesis
  proof (cases "map_get (lineItems st) i")
    case None
    with assms show ?thesis by (simp add: UpdateLineItem updateLineItem_def)
  next
    case (Some existing)
    then have "(i, existing) \<in> set (lineItems st)" by (rule map_get_Some_mem)
    with assms have "li_id existing = i" by (auto simp: keyed_by_id_def)
    with assms Some show ?thesis
      by (simp add: UpdateLineItem updateLineItem_def Let_def keyed_map_set)
  qed
next
  case (DeleteLineItem i)
  show ?thesis
    using assms by (simp add: DeleteLineItem deleteLineItem_def map_delete_def keyed_filter)
qed (use assms in \<open>simp_all add: createClient_def updateClient_def deleteClient_def updateInvoice_def
      Let_def split: option.splits\<close>)

lemma run_keyed: "keyed_by_id (lineItems st) \<Longrightarrow> keyed_by_id (lineItems (run ar st rs))"
  unfolding run_def by (induction rs arbitrary: st) (simp_all add: exec_keyed)

lemma deleteInvoice_lineItems:
  assumes "keyed_by_id (lineItems st)"
  shows "lineItems (fst (deleteInvoice st i)) = filter (\<lambda>e. li_invoiceId (snd e) \<noteq> i) (lineItems st)"
proof -
  let ?m = "lineItems st"
  let ?items = "getLineItemsByInvoiceId st i"
  have "(fst e \<notin> li_id ` set ?items) = (li_invoiceId (snd e) \<noteq> i)" if e: "e \<in> set ?m" for e
  proof
    assume "fst e \<notin> li_id ` set ?items"
    moreover have "li_id (snd e) = fst e" using assms e by (simp add: keyed_by_id_def)
    ultimately show "li_invoiceId (snd e) \<noteq> i"
      using e by (force simp: getLineItemsByInvoiceId_def map_values_def)
  next
    assume other: "li_invoiceId (snd e) \<noteq> i"
    show "fst e \<notin> li_id ` set ?items"
    proof
      assume "fst e \<in> li_id ` set ?items"
      then obtain e' where e': "e' \<in> set ?m" "li_invoiceId (snd e') = i" "li_id (snd e') = fst e"
        by (auto simp: getLineItemsByInvoiceId_def map_values_def)
      then have "fst e' = fst e" using assms by (auto simp: keyed_by_id_def)
      moreover have "inj_on fst (set ?m)"
        using assms by (simp add: keyed_by_id_def distinct_map)
      ultimately have "e' = e" using e e'(1) by (auto dest: inj_onD)
      with e'(2) other show False by simp
    qed
  qed
  then have "filter (\<lambda>e. fst e \<notin> li_id ` set ?items) ?m = filter (\<lambda>e. li_invoiceId (snd e) \<noteq> i) ?m"
    by (intro filter_cong) simp_all
  then show ?thesis by (simp add: deleteInvoice_def Let_def foldl_delete)
qed

lemma revenue_fold:
  "foldl (\<lambda>sum x. add ar sum (parseFloat ar (inv_total x))) z xs
   = foldl (add ar) z (map (\<lambda>x. parseFloat ar (inv_total x)) xs)"
  by (induction xs arbitrary: z) simp_all

lemma digits_of_no_point: "CHR ''.'' \<notin> set (digits_of n)"
proof
  assume "CHR ''.'' \<in> set (digits_of n)"
  then have "radix_digit 10 CHR ''.''" by (rule digits_of_decimal)
  then show False by (simp add: radix_digit_def digit_value_def)
qed

lemma takeWhile_until: "x \<notin> set xs \<Longrightarrow> takeWhile (\<lambda>c. c \<noteq> x) (xs @ x # ys) = xs"
  by (induction xs) auto

lemma split_at_first:
  assumes "x \<notin> set xs" and "x \<notin> set xs'" and "xs @ x # ys = xs' @ x # ys'"
  shows "xs = xs' \<and> ys = ys'"
proof -
  have "xs = xs'"
    using takeWhile_until [OF assms(1), of ys] takeWhile_until [OF assms(2), of ys'] assms(3) by simp
  with assms(3) show ?thesis by simp
qed

lemma fixed2_cents:
  assumes "fixed2 x = a @ CHR ''.'' # b" and "CHR ''.'' \<notin> set a"
  shows "nat \<lfloor>x * 100 + 1 / 2\<rfloor> = radix_value 10 a * 100 + radix_value 10 b"
proof -
  define n where "n = nat \<lfloor>x * 100 + 1 / 2\<rfloor>"
  have "digits_of (n div 100) @ CHR ''.'' # padStart (digits_of (n mod 100)) 2 CHR ''0'' = a @ CHR ''.'' # b"
    using assms(1) by (simp add: fixed2_def n_def Let_def)
  then have "digits_of (n div 100) = a" and "padStart (digits_of (n mod 100)) 2 CHR ''0'' = b"
    using split_at_first [OF digits_of_no_point assms(2)] by blast+
  then have "radix_value 10 a = n div 100" and "radix_value 10 b = n mod 100"
    by (auto simp: radix_value_digits_of padStart_def radix_value_zeros)
  then show ?thesis by (simp add: n_def [symmetric])
qed

lemma toFixed2_cents:
  assumes "toFixed2 exact v = a @ CHR ''.'' # b" and "CHR ''.'' \<notin> set a" and "a \<noteq> []" and "hd a \<noteq> CHR ''-''"
  shows "\<exists>x. v = Some x \<and> 0 \<le> x \<and> \<lfloor>x * 100 + 1 / 2\<rfloor> = int (radix_value 10 a * 100 + radix_value 10 b)"
proof (cases v)
  case None
  with assms(1,2) show ?thesis
    by (cases a; cases "tl a"; cases "tl (tl a)"; cases "tl (tl (tl a))")
       (auto simp: exact_def exact_toFixed2_def)
next
  case (Some x)
  have pos: "0 \<le> x"
  proof (rule ccontr)
    assume "\<not> 0 \<le> x"
    then have "toFixed2 exact v = CHR ''-'' # fixed2 (- x)"
      by (simp add: Some exact_def exact_toFixed2_def)
    with assms(1,3,4) show False by (cases a) auto
  qed
  then have "fixed2 x = a @ CHR ''.'' # b"
    using assms(1) by (simp add: Some exact_def exact_toFixed2_def)
  from fixed2_cents [OF this assms(2)] pos
  have "\<lfloor>x * 100 + 1 / 2\<rfloor> = int (radix_value 10 a * 100 + radix_value 10 b)"
    by (metis add_nonneg_nonneg int_nat_eq mult_nonneg_nonneg zero_le_floor zero_le_numeral
        divide_nonneg_nonneg zero_le_one)
  with Some pos show ?thesis by simp
qed

lemma overwritten_total_not_computed:
  assumes "inv_subtotal invoice = ''10.00''" and "inv_taxRate invoice = ''0.00''"
    and "inv_total invoice = ''999.00''"
  shows "\<not> computed_money exact invoice"
proof
  assume "computed_money exact invoice"
  then obtain s r where s: "toFixed2 exact s = ''10.00''" and r: "toFixed2 exact r = ''0.00''"
    and t: "toFixed2 exact (add exact s (mul exact s (quot exact r (lit exact 100)))) = ''999.00''"
    using assms by (auto simp: computed_money_def)
  from toFixed2_cents [of s "''10''" "''00''"] s
  obtain x where x: "s = Some x" "0 \<le> x" "\<lfloor>x * 100 + 1 / 2\<rfloor> = 1000"
    by (auto simp: radix_value_def digit_value_def)
  from toFixed2_cents [of r "''0''" "''00''"] r
  obtain y where y: "r = Some y" "0 \<le> y" "\<lfloor>y * 100 + 1 / 2\<rfloor> = 0"
    by (auto simp: radix_value_def digit_value_def)
  have total: "add exact s (mul exact s (quot exact r (lit exact 100))) = Some (x + x * (y / 100))"
    by (simp add: x y exact_def exact_binop_def exact_divide_def)
  from toFixed2_cents [of "Some (x + x * (y / 100))" "''999''" "''00''"] t total
  have z: "\<lfloor>(x + x * (y / 100)) * 100 + 1 / 2\<rfloor> = 99900"
    by (auto simp: radix_value_def digit_value_def)
  have "x * 100 + 1 / 2 < 1001" using x(3) by linarith
  then have xb: "x < 11" by simp
  have "y * 100 + 1 / 2 < 1" using y(3) by linarith
  then have yb: "y \<le> 1" by simp
  have "x * (y / 100) \<le> 11 * (1 / 100)"
    using x(2) y(2) xb yb by (intro mult_mono) simp_all
  with xb have "(x + x * (y / 100)) * 100 + 1 / 2 < 99900" by simp
  with z show False by linarith
qed

subsection \<open>Evaluating sequences of requests\<close>

lemma run_Nil: "run ar st [] = st"
  by (simp add: run_def)

lemma run_Cons: "run ar st (rq # rs) = run ar (exec ar st rq) rs"
  by (simp add: run_def)

lemma invoices_created:
  "invoices (fst (createInvoice ar rand now new_MemStorage r)) =
     [(rand 0, fst (snd (createInvoice ar rand now new_MemStorage r)))]"
  by (simp add: createInvoice_invoices) (simp add: new_MemStorage_def)

lemma invoices_created_updated:
  "invoices (run ar new_MemStorage [CreateInvoice r rand now, UpdateInvoice (rand 0) d now']) =
     [(rand 0, the (snd (updateInvoice (fst (createInvoice ar rand now new_MemStorage r)) (rand 0) d now')))]"
  by (simp add: run_Cons run_Nil updateInvoice_def invoices_created Let_def)

lemmas eval_store = run_Cons run_Nil exec.simps createInvoice_def createLineItem_def
  getLineItemsByInvoiceId_def map_values_def one_item_request_def new_MemStorage_def uuids_def
  split_def Let_def or_string_def

subsection \<open>Suffixes that parseInt cannot read\<close>

lemma parseInt_no_break_space: "parseInt (CHR 0xA0 # ''7'') = Some 7"
  by (simp add: parseInt_def eval_parse to_double_exact)

lemma next_number_no_break_space:
  "getNextInvoiceNumber (renumbered (''INV-'' @ CHR 0xA0 # ''7'')) = ''INV-008''"
  "getNextInvoiceNumber (renumbered (''INV-'' @ CHR 0xA0 # ''-5'')) = ''INV-0-4''"
proof -
  have p: "parseInt (CHR 0xA0 # ''7'') = Some 7" "parseInt (CHR 0xA0 # ''-5'') = Some (- 5)"
    by (simp_all add: parseInt_def eval_parse to_double_exact)
  show "getNextInvoiceNumber (renumbered (''INV-'' @ CHR 0xA0 # ''7'')) = ''INV-008''"
    by (simp add: getNextInvoiceNumber_def maxNumber_def existingNumbers_renumbered startsWith_INV p
        js_String_def to_double_exact eval_digits)
  show "getNextInvoiceNumber (renumbered (''INV-'' @ CHR 0xA0 # ''-5'')) = ''INV-0-4''"
    by (simp add: getNextInvoiceNumber_def maxNumber_def existingNumbers_renumbered startsWith_INV p
        js_String_def to_double_exact eval_digits)
qed

text \<open>
  What the filter \<open>!isNaN\<close> does skip: an invoice number with the prefix whose suffix
  parseInt reads as \<open>NaN\<close>. The store with such an invoice and the store without it
  have the same parsed numbers and the same next number.
\<close>

lemma nan_suffix_skipped:
  assumes "startsWith (inv_invoiceNumber invoice) ''INV-''"
    and "parseInt (drop 4 (inv_invoiceNumber invoice)) = None"
  shows "existingNumbers (st\<lparr>invoices := xs @ (k, invoice) # ys\<rparr>) = existingNumbers (st\<lparr>invoices := xs @ ys\<rparr>)"
    and "getNextInvoiceNumber (st\<lparr>invoices := xs @ (k, invoice) # ys\<rparr>) = getNextInvoiceNumber (st\<lparr>invoices := xs @ ys\<rparr>)"
proof -
  show e: "existingNumbers (st\<lparr>invoices := xs @ (k, invoice) # ys\<rparr>) = existingNumbers (st\<lparr>invoices := xs @ ys\<rparr>)"
    using assms
    by (simp add: existingNumbers_spec spec_numbers_def map_values_def startsWith_INV map_filter_def)
  then show "getNextInvoiceNumber (st\<lparr>invoices := xs @ (k, invoice) # ys\<rparr>) = getNextInvoiceNumber (st\<lparr>invoices := xs @ ys\<rparr>)"
    by (simp add: getNextInvoiceNumber_def maxNumber_def)
qed

lemma claimed_numbers_renumbered:
  "claimed_numbers (renumbered num) =
     (if take 4 num = ''INV-'' \<and> numeric (drop 4 num) then not_NaN [parseInt (drop 4 num)] else [])"
  by (cases "parseInt (drop 4 num)") (simp_all add: claimed_numbers_def renumbered_numbers)

section \<open>The claims\<close>

subsection \<open>Sequential invoice numbering\<close>




text \<open>
  C4 (amended). Let m be the largest parsed suffix of the invoice numbers with the
  prefix \<open>INV-\<close> (0 if there is none). Whenever \<open>-1 \<le> m < 2^53\<close>, the string that
  getNextInvoiceNumber returns has the form \<open>INV-NNN\<close> (the prefix and at least three
  decimal digits) and is the invoice number of no invoice in the store.
\<close>

theorem next_number_fresh:
  assumes "- 1 \<le> maxNumber st" and "maxNumber st < 2 ^ 53"
  shows "inv_form (getNextInvoiceNumber st) \<and>
         getNextInvoiceNumber st \<notin> set (map inv_invoiceNumber (map_values (invoices st)))"
proof -
  define k where "k = nat (maxNumber st + 1)"
  define ds where "ds = padStart (digits_of k) 3 CHR ''0''"
  have k: "int k = maxNumber st + 1" using assms by (simp add: k_def)
  have res: "getNextInvoiceNumber st = ''INV-'' @ ds"
    using next_number_digits [OF assms] by (simp add: k_def ds_def)
  have dec: "\<forall>c \<in> set ds. radix_digit 10 c"
    unfolding ds_def by (rule padStart_decimal) (simp add: digits_of_decimal)
  have len: "3 \<le> length ds"
    unfolding ds_def by (rule padStart_length)
  have form: "inv_form (getNextInvoiceNumber st)"
    using dec len by (simp add: res inv_form_def list_all_iff)
  have fresh: "getNextInvoiceNumber st \<notin> set (map inv_invoiceNumber (map_values (invoices st)))"
  proof
    assume mem: "getNextInvoiceNumber st \<in> set (map inv_invoiceNumber (map_values (invoices st)))"
    have "parseInt (drop 4 (getNextInvoiceNumber st)) = Some (int k)"
      using parseInt_padded [of k] k assms by (simp add: res ds_def)
    moreover have "take 4 (getNextInvoiceNumber st) = ''INV-''" by (simp add: res)
    ultimately have "int k \<in> set (existingNumbers st)"
      using mem by (intro spec_numbers_member)
    then have "int k \<le> maxNumber st" by (rule maxNumber_upper)
    with k show False by simp
  qed
  from form fresh show ?thesis by simp
qed

theorem next_number_fresh_witness:
  "- 1 \<le> maxNumber (renumbered ''INV-041'') \<and> maxNumber (renumbered ''INV-041'') < 2 ^ 53 \<and>
   inv_form (getNextInvoiceNumber (renumbered ''INV-041'')) \<and>
   getNextInvoiceNumber (renumbered ''INV-041'')
     \<notin> set (map inv_invoiceNumber (map_values (invoices (renumbered ''INV-041''))))"
proof -
  have m: "maxNumber (renumbered ''INV-041'') = 41"
    by (simp add: maxNumber_def existingNumbers_renumbered startsWith_INV parseInt_def eval_parse to_double_exact)
  show ?thesis
    using next_number_fresh [of "renumbered ''INV-041''"] m by simp
qed

text \<open>
  C4 as stated fails twice. A negative suffix is parsed with its sign: from the invoice
  number \<open>INV--5\<close> the result is \<open>INV-0-4\<close>, which is not of the form. And at \<open>2^53\<close>
  the result is the number of the invoice in the store.
\<close>

theorem next_number_malformed_or_used:
  "getNextInvoiceNumber (renumbered ''INV--5'') = ''INV-0-4'' \<and>
   \<not> inv_form (getNextInvoiceNumber (renumbered ''INV--5'')) \<and>
   getNextInvoiceNumber (renumbered ''INV-9007199254740992'')
     \<in> set (map inv_invoiceNumber (map_values (invoices (renumbered ''INV-9007199254740992''))))"
proof -
  have p5: "parseInt ''-5'' = Some (- 5)"
    by (simp add: parseInt_def eval_parse to_double_exact)
  have a: "getNextInvoiceNumber (renumbered ''INV--5'') = ''INV-0-4''"
    by (simp add: getNextInvoiceNumber_def maxNumber_def existingNumbers_renumbered startsWith_INV p5
        js_String_def to_double_exact eval_digits)
  have b: "\<not> inv_form ''INV-0-4''"
    by (simp add: inv_form_def radix_digit_def digit_value_def)
  have p: "parseInt ''9007199254740992'' = Some 9007199254740992"
    by (simp add: parseInt_def eval_parse to_double_exact)
  have d: "to_double 9007199254740993 = 9007199254740992"
    by (simp add: to_double_def to_double_nat_def bit_length.simps Let_def)
  have c: "getNextInvoiceNumber (renumbered ''INV-9007199254740992'') = ''INV-9007199254740992''"
    by (simp add: getNextInvoiceNumber_def maxNumber_def existingNumbers_renumbered startsWith_INV p d
        js_String_def eval_digits)
  show ?thesis
    by (simp add: a b c renumbered_numbers)
qed

text \<open>
  C6. The claim: during the computation of the maximum, every invoice number with the
  prefix \<open>INV-\<close> whose suffix is malformed (not numeric) is ignored; \<open>INV-ABC\<close> is
  excluded. The filter \<open>!isNaN\<close> is there to do this and does exclude \<open>INV-ABC\<close>, but
  parseInt has already read what digits it found: \<open>INV-7abc\<close> counts as 7 and
  \<open>INV-0x1F\<close> as 31, where the claim has no number to count, and the next invoice
  number is \<open>INV-008\<close> and \<open>INV-032\<close> in place of \<open>INV-001\<close>.
\<close>

theorem non_numeric_suffix_counted:
  "\<not> numeric ''7abc'' \<and> startsWith ''INV-7abc'' ''INV-'' \<and>
   claimed_numbers (renumbered ''INV-7abc'') = [] \<and>
   existingNumbers (renumbered ''INV-7abc'') = [7] \<and>
   getNextInvoiceNumber (renumbered ''INV-7abc'') = ''INV-008'' \<and>
   \<not> numeric ''0x1F'' \<and>
   claimed_numbers (renumbered ''INV-0x1F'') = [] \<and>
   existingNumbers (renumbered ''INV-0x1F'') = [31] \<and>
   getNextInvoiceNumber (renumbered ''INV-0x1F'') = ''INV-032'' \<and>
   \<not> numeric ''ABC'' \<and>
   existingNumbers (renumbered ''INV-ABC'') = [] \<and>
   getNextInvoiceNumber (renumbered ''INV-ABC'') = ''INV-001''"
proof -
  have p: "parseInt ''7abc'' = Some 7" "parseInt ''0x1F'' = Some 31" "parseInt ''ABC'' = None"
    by (simp_all add: parseInt_def eval_parse to_double_exact)
  have n: "\<not> numeric ''7abc''" "\<not> numeric ''0x1F''" "\<not> numeric ''ABC''"
    by (simp_all add: numeric_def radix_digit_def digit_value_def)
  have s: "startsWith ''INV-7abc'' ''INV-''"
    by (simp add: startsWith_def)
  have c: "claimed_numbers (renumbered ''INV-7abc'') = []" "claimed_numbers (renumbered ''INV-0x1F'') = []"
    using n by (simp_all add: claimed_numbers_renumbered)
  have e: "existingNumbers (renumbered ''INV-7abc'') = [7]"
    "existingNumbers (renumbered ''INV-0x1F'') = [31]"
    "existingNumbers (renumbered ''INV-ABC'') = []"
    by (simp_all add: existingNumbers_renumbered startsWith_INV p)
  have g: "getNextInvoiceNumber (renumbered ''INV-7abc'') = ''INV-008''"
    "getNextInvoiceNumber (renumbered ''INV-0x1F'') = ''INV-032''"
    "getNextInvoiceNumber (renumbered ''INV-ABC'') = ''INV-001''"
    by (simp_all add: getNextInvoiceNumber_def maxNumber_def e js_String_def to_double_exact eval_digits)
  from n s c e g show ?thesis by simp
qed

subsection \<open>Invoice creation\<close>



text \<open>
  C10. For every create-invoice request and every store, the invoice that createInvoice
  stores has the status \<open>draft\<close> and no client reference (\<open>clientId\<close> null); the
  clients of the store are neither read nor changed.
\<close>

theorem createInvoice_draft_without_client:
  assumes "createInvoice ar rand now st r = (st', invoice, items)"
  shows "map_get (invoices st') (rand 0) = Some invoice \<and>
         inv_status invoice = ''draft'' \<and> inv_clientId invoice = None \<and>
         clients st' = clients st"
proof -
  have st': "st' = fst (createInvoice ar rand now st r)"
    and invoice: "invoice = fst (snd (createInvoice ar rand now st r))"
    using assms by simp_all
  show ?thesis
    by (simp add: st' createInvoice_invoices map_get_set_same createInvoice_clients)
       (simp add: invoice createInvoice_invoice)
qed

theorem createInvoice_draft_without_client_witness:
  "(let st = fst (createClient new_MemStorage
                    \<lparr>ic_name = ''Ada'', ic_email = ''ada@example.com'', ic_address = None\<rparr> ''c'' 0);
        (st', invoice, items) = createInvoice exact (uuids ''a'') 1 st (one_item_request 1 10 0)
    in getClientByEmail st (req_clientEmail (one_item_request 1 10 0)) \<noteq> None \<and>
       map_get (invoices st') ''a'' = Some invoice \<and>
       inv_status invoice = ''draft'' \<and> inv_clientId invoice = None)"
proof -
  let ?st = "fst (createClient (new_MemStorage :: rat option MemStorage)
                    \<lparr>ic_name = ''Ada'', ic_email = ''ada@example.com'', ic_address = None\<rparr> ''c'' 0)"
  obtain st' invoice items
    where eq: "createInvoice exact (uuids ''a'') 1 ?st (one_item_request 1 10 0) = (st', invoice, items)"
    by (cases "createInvoice exact (uuids ''a'') 1 ?st (one_item_request 1 10 0)") auto
  have c: "getClientByEmail ?st (req_clientEmail (one_item_request 1 10 0)) \<noteq> None"
    by (simp add: getClientByEmail_def createClient_def new_MemStorage_def map_values_def
        one_item_request_def Let_def)
  show ?thesis
    unfolding Let_def eq
    using createInvoice_draft_without_client [OF eq] c
    by (simp add: uuids_def)
qed

subsection \<open>Totals\<close>

text \<open>
  C5 (amended). For every invoice that createInvoice stores, the stored total is the
  2-decimal rendering of the unrounded subtotal plus the unrounded tax amount,
  \<open>round(S + S \<times> (taxRate / 100))\<close> with S the sum of the unrounded item amounts: the
  tax amount is not rounded before it is added.
\<close>

theorem createInvoice_total_unrounded_tax:
  assumes "createInvoice ar rand now st r = (st', invoice, items)"
  shows "map_get (invoices st') (rand 0) = Some invoice \<and>
         inv_total invoice =
           toFixed2 ar (add ar (spec_subtotal ar r)
                               (mul ar (spec_subtotal ar r) (quot ar (req_taxRate r) (lit ar 100))))"
proof -
  have "st' = fst (createInvoice ar rand now st r)"
    and "invoice = fst (snd (createInvoice ar rand now st r))"
    using assms by simp_all
  then show ?thesis
    by (simp add: createInvoice_invoices map_get_set_same)
       (simp add: createInvoice_invoice spec_total_def spec_taxAmount_def)
qed

theorem createInvoice_total_unrounded_tax_witness:
  "(let (st', invoice, items) =
          createInvoice exact (uuids ''a'') 1 new_MemStorage (one_item_request 1 (1 / 250) 100)
    in map_get (invoices st') ''a'' = Some invoice \<and> inv_total invoice = ''0.01'')"
proof -
  let ?r = "one_item_request 1 (1 / 250) 100"
  obtain st' invoice items
    where eq: "createInvoice exact (uuids ''a'') 1 new_MemStorage ?r = (st', invoice, items)"
    by (cases "createInvoice exact (uuids ''a'') 1 new_MemStorage ?r") auto
  have v: "toFixed2 exact (add exact (spec_subtotal exact ?r)
             (mul exact (spec_subtotal exact ?r) (quot exact (req_taxRate ?r) (lit exact 100)))) = ''0.01''"
    by (simp add: eval_spec eval_exact)
  show ?thesis
    unfolding eq
    using createInvoice_total_unrounded_tax [OF eq] v by (simp add: uuids_def)
qed

text \<open>
  C5 as stated fails when the tax amount loses something in rounding that the total
  keeps. One item, quantity 1 at rate 0.004, tax rate 100: subtotal and tax amount are
  both 0.004 and are stored as \<open>0.00\<close>, the total 0.008 is stored as \<open>0.01\<close>. The
  formula of the claim gives \<open>0.00\<close>, from the stored subtotal and from the unrounded
  one. (On doubles every step is the same: the product by 1 and the doubling are exact.)
\<close>

theorem stored_total_not_claimed_total:
  "(let r = one_item_request 1 (1 / 250) 100;
        invoice = fst (snd (createInvoice exact (uuids ''a'') 1 new_MemStorage r))
    in inv_subtotal invoice = ''0.00'' \<and> inv_taxRate invoice = ''100.00'' \<and>
       inv_taxAmount invoice = ''0.00'' \<and> inv_total invoice = ''0.01'' \<and>
       claimed_total exact (parseFloat exact (inv_subtotal invoice)) (parseFloat exact (inv_taxRate invoice)) = ''0.00'' \<and>
       claimed_total exact (spec_subtotal exact r) (req_taxRate r) = ''0.00'' \<and>
       inv_total invoice \<noteq>
         claimed_total exact (parseFloat exact (inv_subtotal invoice)) (parseFloat exact (inv_taxRate invoice)) \<and>
       inv_total invoice \<noteq> claimed_total exact (spec_subtotal exact r) (req_taxRate r))"
proof -
  let ?r = "one_item_request 1 (1 / 250) 100"
  have v: "toFixed2 exact (spec_subtotal exact ?r) = ''0.00''"
    "toFixed2 exact (req_taxRate ?r) = ''100.00''"
    "toFixed2 exact (spec_taxAmount exact ?r) = ''0.00''"
    "toFixed2 exact (spec_total exact ?r) = ''0.01''"
    by (simp_all add: eval_spec eval_exact)
  have p: "exact_parseFloat ''0.00'' = Some 0" "exact_parseFloat ''100.00'' = Some 100"
    by (simp_all add: exact_parseFloat_def strip_sign_def eval_parse)
  have c1: "claimed_total exact (parseFloat exact ''0.00'') (parseFloat exact ''100.00'') = ''0.00''"
    by (simp add: claimed_total_def eval_exact p)
  have q: "toFixed2 exact (quot exact (mul exact (spec_subtotal exact ?r) (req_taxRate ?r)) (lit exact 100)) = ''0.00''"
    by (simp add: eval_spec eval_exact)
  have c2: "claimed_total exact (spec_subtotal exact ?r) (req_taxRate ?r) = ''0.00''"
    unfolding claimed_total_def q by (simp add: eval_spec eval_exact p)
  show ?thesis
    by (simp add: Let_def createInvoice_invoice v c1 c2)
qed

subsection \<open>The invariant of the monetary fields\<close>

text \<open>
  C2 (amended). The monetary fields of every invoice in the store are the 2-decimal
  renderings of one computation, subtotal S, tax rate, tax amount S \<times> (taxRate / 100)
  and total S plus tax amount, each rounded on its own from the unrounded values, after
  every sequence of store operations in which no updateInvoice supplies a monetary
  field (an updateInvoice stores the fields it is given and recomputes nothing).
\<close>

theorem monetary_fields_computed:
  assumes "\<forall>rq \<in> set rs. \<not> writes_money rq"
  shows "\<forall>invoice \<in> set (map_values (invoices (run ar new_MemStorage rs))). computed_money ar invoice"
  using assms by (intro run_computed_money) (simp_all add: new_MemStorage_def map_values_def)

theorem monetary_fields_computed_witness:
  "list_all (\<lambda>rq. \<not> writes_money rq)
     [CreateInvoice (one_item_request 3 (1999 / 100) (33 / 4)) (uuids ''a'') 5,
      UpdateInvoice ''a'' (no_change\<lparr>pi_status := Some ''paid''\<rparr>) 6] \<and>
   list_all (computed_money exact)
     (map_values (invoices (run exact new_MemStorage
        [CreateInvoice (one_item_request 3 (1999 / 100) (33 / 4)) (uuids ''a'') 5,
         UpdateInvoice ''a'' (no_change\<lparr>pi_status := Some ''paid''\<rparr>) 6]))) \<and>
   map inv_status (map_values (invoices (run exact new_MemStorage
        [CreateInvoice (one_item_request 3 (1999 / 100) (33 / 4)) (uuids ''a'') 5,
         UpdateInvoice ''a'' (no_change\<lparr>pi_status := Some ''paid''\<rparr>) 6]))) = [''paid'']"
proof -
  let ?rs = "[CreateInvoice (one_item_request 3 (1999 / 100) (33 / 4)) (uuids ''a'') 5,
              UpdateInvoice ''a'' (no_change\<lparr>pi_status := Some ''paid''\<rparr>) 6]"
  have quiet: "\<forall>rq \<in> set ?rs. \<not> writes_money rq"
    by (simp add: no_change_def)
  have paid: "map inv_status (map_values (invoices (run exact new_MemStorage ?rs))) = [''paid'']"
    using invoices_created_updated [of exact "one_item_request 3 (1999 / 100) (33 / 4)" "uuids ''a''" 5
        "no_change\<lparr>pi_status := Some ''paid''\<rparr>" 6]
    by (simp add: uuids_def map_values_def updateInvoice_def invoices_created Let_def override_def)
  from monetary_fields_computed [OF quiet, of exact] quiet paid show ?thesis
    unfolding list_all_iff by blast
qed

text \<open>
  C2 as stated fails in two ways. createInvoice rounds the total from the unrounded
  values: for one item at rate 0.004 and tax rate 100 it stores subtotal \<open>0.00\<close>, tax
  amount \<open>0.00\<close> and total \<open>0.01\<close>. And updateInvoice stores a total it is given:
  after \<open>total := 999.00\<close> the invoice has subtotal \<open>10.00\<close>, tax amount \<open>0.00\<close> and
  total \<open>999.00\<close>, which are the roundings of no computation at all.
\<close>

theorem claimed_invariant_broken:
  "\<not> list_all (claimed_invariant exact)
       (map_values (invoices (run exact new_MemStorage
          [CreateInvoice (one_item_request 1 (1 / 250) 100) (uuids ''a'') 5]))) \<and>
   \<not> list_all (claimed_invariant exact)
       (map_values (invoices (run exact new_MemStorage
          [CreateInvoice (one_item_request 1 10 0) (uuids ''a'') 5,
           UpdateInvoice (uuids ''a'' 0) (no_change\<lparr>pi_total := Some ''999.00''\<rparr>) 6]))) \<and>
   \<not> list_all (computed_money exact)
       (map_values (invoices (run exact new_MemStorage
          [CreateInvoice (one_item_request 1 10 0) (uuids ''a'') 5,
           UpdateInvoice (uuids ''a'' 0) (no_change\<lparr>pi_total := Some ''999.00''\<rparr>) 6])))"
proof -
  let ?r = "one_item_request 1 (1 / 250) 100"
  have v: "toFixed2 exact (spec_subtotal exact ?r) = ''0.00''"
    "toFixed2 exact (spec_taxAmount exact ?r) = ''0.00''"
    "toFixed2 exact (spec_total exact ?r) = ''0.01''"
    by (simp_all add: eval_spec eval_exact)
  let ?q = "one_item_request 1 10 0"
  let ?u = "the (snd (updateInvoice (fst (createInvoice exact (uuids ''a'') 5 new_MemStorage ?q))
                        (uuids ''a'' 0) (no_change\<lparr>pi_total := Some ''999.00''\<rparr>) 6))"
  have w: "toFixed2 exact (spec_subtotal exact ?q) = ''10.00''"
    "toFixed2 exact (spec_taxAmount exact ?q) = ''0.00''"
    "toFixed2 exact (req_taxRate ?q) = ''0.00''"
    by (simp_all add: eval_spec eval_exact)
  have p: "exact_parseFloat ''0.00'' = Some 0" "exact_parseFloat ''10.00'' = Some 10"
    by (simp_all add: exact_parseFloat_def strip_sign_def eval_parse)
  have s: "toFixed2 exact (add exact (parseFloat exact ''0.00'') (parseFloat exact ''0.00'')) = ''0.00''"
    "toFixed2 exact (add exact (parseFloat exact ''10.00'') (parseFloat exact ''0.00'')) = ''10.00''"
    by (simp_all add: eval_exact p)
  have a: "\<not> list_all (claimed_invariant exact)
       (map_values (invoices (run exact new_MemStorage [CreateInvoice ?r (uuids ''a'') 5])))"
    by (simp add: run_Cons run_Nil invoices_created map_values_def claimed_invariant_def
        createInvoice_invoice v s)
  have fields: "inv_subtotal ?u = ''10.00''" "inv_taxRate ?u = ''0.00''" "inv_taxAmount ?u = ''0.00''"
    "inv_total ?u = ''999.00''"
    by (simp_all add: updateInvoice_def invoices_created createInvoice_invoice Let_def override_def
        no_change_def w)
  have b: "\<not> claimed_invariant exact ?u"
    by (simp add: claimed_invariant_def fields s)
  have c: "\<not> computed_money exact ?u"
    using fields by (intro overwritten_total_not_computed)
  from a b c show ?thesis
    by (simp add: invoices_created_updated map_values_def)
qed

subsection \<open>Cascading delete\<close>

text \<open>
  C7. In every store reached from the empty store by a sequence of operations, for
  every invoice id, deleteInvoice removes the invoice and the line items whose
  invoiceId is that id: afterwards neither getInvoice nor getLineItemsByInvoiceId on
  the id finds anything, the line items of every other invoice are the same as
  before, and the result says whether the invoice was there.
\<close>

theorem deleteInvoice_cascade:
  assumes "deleteInvoice (run ar new_MemStorage rs) i = (st', b)"
  shows "getInvoice st' i = None \<and>
         getLineItemsByInvoiceId st' i = [] \<and>
         (\<forall>j. j \<noteq> i \<longrightarrow>
              getLineItemsByInvoiceId st' j = getLineItemsByInvoiceId (run ar new_MemStorage rs) j) \<and>
         map_values (lineItems st') =
           filter (\<lambda>item. li_invoiceId item \<noteq> i) (map_values (lineItems (run ar new_MemStorage rs))) \<and>
         b = map_has (invoices (run ar new_MemStorage rs)) i"
proof -
  let ?st = "run ar new_MemStorage rs"
  have st': "st' = fst (deleteInvoice ?st i)" and b: "b = snd (deleteInvoice ?st i)"
    using assms by simp_all
  have "keyed_by_id (lineItems ?st)"
    by (rule run_keyed) (simp add: new_MemStorage_def keyed_by_id_def)
  then have items: "lineItems st' = filter (\<lambda>e. li_invoiceId (snd e) \<noteq> i) (lineItems ?st)"
    unfolding st' by (rule deleteInvoice_lineItems)
  have gone: "getInvoice st' i = None"
    using map_get_delete [of "invoices ?st" i]
    by (simp add: st' getInvoice_def deleteInvoice_def Let_def)
  have none: "getLineItemsByInvoiceId st' i = []"
    by (simp add: getLineItemsByInvoiceId_def map_values_def items filter_map comp_def)
  have others: "getLineItemsByInvoiceId st' j = getLineItemsByInvoiceId ?st j" if "j \<noteq> i" for j
  proof -
    have "filter (\<lambda>e. li_invoiceId (snd e) \<noteq> i \<and> li_invoiceId (snd e) = j) (lineItems ?st)
          = filter (\<lambda>e. li_invoiceId (snd e) = j) (lineItems ?st)"
      by (rule filter_cong) (use that in auto)
    then show ?thesis
      by (simp add: getLineItemsByInvoiceId_def map_values_def items filter_map comp_def)
  qed
  have rest: "map_values (lineItems st') = filter (\<lambda>item. li_invoiceId item \<noteq> i) (map_values (lineItems ?st))"
    by (simp add: map_values_def items filter_map comp_def)
  have result: "b = map_has (invoices ?st) i"
    by (simp add: b deleteInvoice_def Let_def map_delete_def)
  from gone none others rest result show ?thesis by blast
qed

theorem deleteInvoice_cascade_witness:
  "(let st = run exact new_MemStorage
               [CreateInvoice (one_item_request 1 10 0) (uuids ''a'') 5,
                CreateInvoice (one_item_request 2 5 0) (uuids ''b'') 6];
        (st', b) = deleteInvoice st ''a''
    in map li_id (getLineItemsByInvoiceId st ''a'') = [''ai''] \<and>
       getLineItemsByInvoiceId st' ''a'' = [] \<and>
       getInvoice st' ''a'' = None \<and> b \<and>
       getLineItemsByInvoiceId st' ''b'' = getLineItemsByInvoiceId st ''b'' \<and>
       map li_id (getLineItemsByInvoiceId st ''b'') = [''bi''])"
proof -
  let ?st = "run exact new_MemStorage
               [CreateInvoice (one_item_request 1 10 0) (uuids ''a'') 5,
                CreateInvoice (one_item_request 2 5 0) (uuids ''b'') 6]"
  obtain st' b where eq: "deleteInvoice ?st ''a'' = (st', b)"
    by (cases "deleteInvoice ?st ''a''") auto
  have a: "map li_id (getLineItemsByInvoiceId ?st ''a'') = [''ai'']"
    by (simp add: eval_store)
  have b: "map li_id (getLineItemsByInvoiceId ?st ''b'') = [''bi'']"
    by (simp add: eval_store)
  have h: "map_has (invoices ?st) ''a''"
    by (simp add: eval_store map_has_def createLineItems_invoices)
  show ?thesis
    unfolding Let_def eq
    using deleteInvoice_cascade [OF eq] a b h by simp
qed

subsection \<open>Absent identifiers\<close>

text \<open>
  C9 (amended). For an id absent from the store, the lookups (getClient, getInvoice,
  and getInvoiceByNumber for a number no invoice has) return not found, the updates
  (updateClient, updateInvoice, updateLineItem) return not found and the deletes return
  false. The store is left as it was by the updates, by deleteClient and by
  deleteLineItem; deleteInvoice leaves the clients and the invoices as they were, and the
  whole store when no line item has the id as its invoiceId.
\<close>

theorem absent_id_not_found:
  "(map_get (clients st) i = None \<longrightarrow>
      getClient st i = None \<and> updateClient st i cd = (st, None) \<and> deleteClient st i = (st, False)) \<and>
   (map_get (invoices st) i = None \<longrightarrow>
      getInvoice st i = None \<and> updateInvoice st i d now = (st, None) \<and>
      snd (deleteInvoice st i) = False \<and>
      clients (fst (deleteInvoice st i)) = clients st \<and>
      invoices (fst (deleteInvoice st i)) = invoices st \<and>
      (getLineItemsByInvoiceId st i = [] \<longrightarrow> deleteInvoice st i = (st, False))) \<and>
   (num \<notin> set (map inv_invoiceNumber (map_values (invoices st))) \<longrightarrow> getInvoiceByNumber st num = None) \<and>
   (map_get (lineItems st) i = None \<longrightarrow>
      updateLineItem st i ld = (st, None) \<and> deleteLineItem st i = (st, False))"
proof -
  have c: "getClient st i = None \<and> updateClient st i cd = (st, None) \<and> deleteClient st i = (st, False)"
    if "map_get (clients st) i = None"
    using that by (simp add: getClient_def updateClient_def deleteClient_def map_delete_absent)
  have v: "getInvoice st i = None \<and> updateInvoice st i d now = (st, None) \<and>
      snd (deleteInvoice st i) = False \<and>
      clients (fst (deleteInvoice st i)) = clients st \<and>
      invoices (fst (deleteInvoice st i)) = invoices st \<and>
      (getLineItemsByInvoiceId st i = [] \<longrightarrow> deleteInvoice st i = (st, False))"
    if "map_get (invoices st) i = None"
    using that by (simp add: getInvoice_def updateInvoice_def deleteInvoice_def Let_def map_delete_absent)
  have n: "getInvoiceByNumber st num = None"
    if "num \<notin> set (map inv_invoiceNumber (map_values (invoices st)))"
  proof -
    have "find (\<lambda>x. inv_invoiceNumber x = num) (map_values (invoices st)) = None"
      using that by (auto simp: find_None_iff)
    then show ?thesis by (simp add: getInvoiceByNumber_def)
  qed
  have l: "updateLineItem st i ld = (st, None) \<and> deleteLineItem st i = (st, False)"
    if "map_get (lineItems st) i = None"
    using that by (simp add: updateLineItem_def deleteLineItem_def map_delete_absent)
  from c v n l show ?thesis by blast
qed

theorem absent_id_not_found_witness:
  "(let st = run exact new_MemStorage
               [CreateClient \<lparr>ic_name = ''Ada'', ic_email = ''ada@example.com'', ic_address = None\<rparr> ''c'' 4,
                CreateInvoice (one_item_request 1 10 0) (uuids ''a'') 5];
        cd = \<lparr>pc_name = Some ''Eve'', pc_email = None, pc_address = None\<rparr>;
        d = no_change\<lparr>pi_status := Some ''paid''\<rparr>;
        ld = \<lparr>pl_invoiceId = None, pl_description = Some ''more'', pl_quantity = None,
              pl_rate = None, pl_amount = None\<rparr>
    in map_get (clients st) ''zz'' = None \<and> map_get (invoices st) ''zz'' = None \<and>
       map_get (lineItems st) ''zz'' = None \<and> getLineItemsByInvoiceId st ''zz'' = [] \<and>
       ''INV-999'' \<notin> set (map inv_invoiceNumber (map_values (invoices st))) \<and>
       getClient st ''zz'' = None \<and> getInvoice st ''zz'' = None \<and> getInvoiceByNumber st ''INV-999'' = None \<and>
       updateClient st ''zz'' cd = (st, None) \<and> updateInvoice st ''zz'' d 9 = (st, None) \<and>
       updateLineItem st ''zz'' ld = (st, None) \<and>
       deleteClient st ''zz'' = (st, False) \<and> deleteInvoice st ''zz'' = (st, False) \<and>
       deleteLineItem st ''zz'' = (st, False))"
proof -
  let ?st = "run exact new_MemStorage
               [CreateClient \<lparr>ic_name = ''Ada'', ic_email = ''ada@example.com'', ic_address = None\<rparr> ''c'' 4,
                CreateInvoice (one_item_request 1 10 0) (uuids ''a'') 5]"
  have c: "map_get (clients ?st) ''zz'' = None"
    by (simp add: run_Cons run_Nil createInvoice_clients createClient_def new_MemStorage_def Let_def)
  have v: "map_get (invoices ?st) ''zz'' = None"
    by (simp add: run_Cons run_Nil createInvoice_invoices createClient_def new_MemStorage_def Let_def uuids_def)
  have l: "map_get (lineItems ?st) ''zz'' = None"
    by (simp add: eval_store createClient_def)
  have g: "getLineItemsByInvoiceId ?st ''zz'' = []"
    by (simp add: eval_store createClient_def)
  have n: "''INV-999'' \<notin> set (map inv_invoiceNumber (map_values (invoices ?st)))"
    by (simp add: run_Cons run_Nil createInvoice_invoices createInvoice_invoice createClient_def
        new_MemStorage_def Let_def map_values_def getNextInvoiceNumber_def maxNumber_def
        existingNumbers_def js_String_def to_double_exact eval_digits)
  show ?thesis
    unfolding Let_def
    using absent_id_not_found [of ?st "''zz''"
        "\<lparr>pc_name = Some ''Eve'', pc_email = None, pc_address = None\<rparr>"
        "no_change\<lparr>pi_status := Some ''paid''\<rparr>" 9 "''INV-999''"
        "\<lparr>pl_invoiceId = None, pl_description = Some ''more'', pl_quantity = None,
              pl_rate = None, pl_amount = None\<rparr>"] c v l g n
    by blast
qed

text \<open>
  C9 as stated fails for deleteInvoice: it deletes the line items whose invoiceId is the
  id before it looks for the invoice. With a line item created for the invoice id
  \<open>ghost\<close>, which no invoice has, deleteInvoice returns false and the line item is gone.
\<close>

theorem deleteInvoice_absent_id_changes_store:
  "(let st = run exact new_MemStorage
               [CreateLineItem \<lparr>ili_invoiceId = ''ghost'', ili_description = ''work'',
                                ili_quantity = Some (Some 2), ili_rate = Some ''1.00'',
                                ili_amount = Some ''2.00''\<rparr> ''l'']
    in map_get (invoices st) ''ghost'' = None \<and>
       snd (deleteInvoice st ''ghost'') = False \<and>
       map li_id (map_values (lineItems st)) = [''l''] \<and>
       lineItems (fst (deleteInvoice st ''ghost'')) = [] \<and>
       fst (deleteInvoice st ''ghost'') \<noteq> st)"
proof -
  let ?st = "run exact new_MemStorage
               [CreateLineItem \<lparr>ili_invoiceId = ''ghost'', ili_description = ''work'',
                                ili_quantity = Some (Some 2), ili_rate = Some ''1.00'',
                                ili_amount = Some ''2.00''\<rparr> ''l'']"
  have a: "map_get (invoices ?st) ''ghost'' = None"
    by (simp add: eval_store)
  have b: "snd (deleteInvoice ?st ''ghost'') = False"
    by (simp add: eval_store deleteInvoice_def map_delete_def map_has_def)
  have c: "map li_id (map_values (lineItems ?st)) = [''l'']"
    by (simp add: eval_store)
  have d: "lineItems (fst (deleteInvoice ?st ''ghost'')) = []"
    by (simp add: eval_store deleteInvoice_def map_delete_def)
  have "lineItems ?st \<noteq> []" using c by (auto simp: map_values_def)
  with d have e: "fst (deleteInvoice ?st ''ghost'') \<noteq> ?st" by metis
  from a b c d e show ?thesis unfolding Let_def by blast
qed

subsection \<open>Statistics\<close>

text \<open>
  C8. For every store, getInvoiceStats returns the number of invoices, the 2-decimal
  rendering of the sum of \<open>total\<close> over the invoices with status \<open>paid\<close>, the number of
  invoices with status \<open>sent\<close> and the number with status \<open>overdue\<close>; it reads the
  invoices and writes nothing (the method has no assignment, the function no store to
  return). For invoices paid with total 100.00, paid with total 50.00, sent and overdue
  the result is 4 invoices, revenue \<open>150.00\<close>, 1 pending and 1 overdue.
\<close>

theorem getInvoiceStats_aggregates:
  "totalInvoices (getInvoiceStats ar st) = length (map_values (invoices st)) \<and>
   totalRevenue (getInvoiceStats ar st) =
     toFixed2 ar (sum_amounts ar (map (\<lambda>x. parseFloat ar (inv_total x))
                                     (filter (\<lambda>x. inv_status x = ''paid'') (map_values (invoices st))))) \<and>
   pendingInvoices (getInvoiceStats ar st) =
     length (filter (\<lambda>x. inv_status x = ''sent'') (map_values (invoices st))) \<and>
   overdueInvoices (getInvoiceStats ar st) =
     length (filter (\<lambda>x. inv_status x = ''overdue'') (map_values (invoices st))) \<and>
   getInvoiceStats exact
     (st0\<lparr>invoices := [(k1, i1\<lparr>inv_status := ''paid'', inv_total := ''100.00''\<rparr>),
                       (k2, i2\<lparr>inv_status := ''paid'', inv_total := ''50.00''\<rparr>),
                       (k3, i3\<lparr>inv_status := ''sent''\<rparr>),
                       (k4, i4\<lparr>inv_status := ''overdue''\<rparr>)]\<rparr>)
   = \<lparr>totalInvoices = 4, totalRevenue = ''150.00'', pendingInvoices = 1, overdueInvoices = 1\<rparr>"
proof -
  have general:
    "totalInvoices (getInvoiceStats ar st) = length (map_values (invoices st))"
    "totalRevenue (getInvoiceStats ar st) =
       toFixed2 ar (sum_amounts ar (map (\<lambda>x. parseFloat ar (inv_total x))
                                       (filter (\<lambda>x. inv_status x = ''paid'') (map_values (invoices st)))))"
    "pendingInvoices (getInvoiceStats ar st) =
       length (filter (\<lambda>x. inv_status x = ''sent'') (map_values (invoices st)))"
    "overdueInvoices (getInvoiceStats ar st) =
       length (filter (\<lambda>x. inv_status x = ''overdue'') (map_values (invoices st)))"
    by (simp_all add: getInvoiceStats_def Let_def sum_amounts_def revenue_fold)
  have p: "exact_parseFloat ''100.00'' = Some 100" "exact_parseFloat ''50.00'' = Some 50"
    by (simp_all add: exact_parseFloat_def strip_sign_def eval_parse)
  have r: "toFixed2 exact (add exact (add exact (lit exact 0) (parseFloat exact ''100.00''))
                                     (parseFloat exact ''50.00'')) = ''150.00''"
    by (simp add: eval_exact p)
  have example: "getInvoiceStats exact
     (st0\<lparr>invoices := [(k1, i1\<lparr>inv_status := ''paid'', inv_total := ''100.00''\<rparr>),
                       (k2, i2\<lparr>inv_status := ''paid'', inv_total := ''50.00''\<rparr>),
                       (k3, i3\<lparr>inv_status := ''sent''\<rparr>),
                       (k4, i4\<lparr>inv_status := ''overdue''\<rparr>)]\<rparr>)
   = \<lparr>totalInvoices = 4, totalRevenue = ''150.00'', pendingInvoices = 1, overdueInvoices = 1\<rparr>"
    by (simp add: getInvoiceStats_def Let_def map_values_def r)
  from general example show ?thesis by simp
qed

theorem getInvoiceStats_aggregates_witness:
  "getInvoiceStats exact
     (run exact new_MemStorage
        [CreateInvoice (one_item_request 1 100 0) (uuids ''a'') 5,
         CreateInvoice (one_item_request 2 25 0) (uuids ''b'') 6,
         UpdateInvoice ''a'' (no_change\<lparr>pi_status := Some ''paid''\<rparr>) 7,
         UpdateInvoice ''b'' (no_change\<lparr>pi_status := Some ''paid''\<rparr>) 8])
   = \<lparr>totalInvoices = 2, totalRevenue = ''150.00'', pendingInvoices = 0, overdueInvoices = 0\<rparr>"
proof -
  let ?st = "run exact new_MemStorage
        [CreateInvoice (one_item_request 1 100 0) (uuids ''a'') 5,
         CreateInvoice (one_item_request 2 25 0) (uuids ''b'') 6,
         UpdateInvoice ''a'' (no_change\<lparr>pi_status := Some ''paid''\<rparr>) 7,
         UpdateInvoice ''b'' (no_change\<lparr>pi_status := Some ''paid''\<rparr>) 8]"
  have t: "toFixed2 exact (spec_total exact (one_item_request 1 100 0)) = ''100.00''"
    "toFixed2 exact (spec_total exact (one_item_request 2 25 0)) = ''50.00''"
    by (simp_all add: eval_spec eval_exact)
  have s: "map (\<lambda>x. (inv_status x, inv_total x)) (map_values (invoices ?st))
           = [(''paid'', ''100.00''), (''paid'', ''50.00'')]"
    by (simp add: run_Cons run_Nil createInvoice_invoices createInvoice_invoice updateInvoice_def
        new_MemStorage_def uuids_def map_values_def Let_def override_def no_change_def t)
  have p: "exact_parseFloat ''100.00'' = Some 100" "exact_parseFloat ''50.00'' = Some 50"
    by (simp_all add: exact_parseFloat_def strip_sign_def eval_parse)
  have r: "toFixed2 exact (add exact (add exact (lit exact 0) (parseFloat exact ''100.00''))
                                     (parseFloat exact ''50.00'')) = ''150.00''"
    by (simp add: eval_exact p)
  have v: "map_values (invoices ?st) = [x, y] \<Longrightarrow> inv_status x = ''paid'' \<Longrightarrow> inv_total x = ''100.00'' \<Longrightarrow>
           inv_status y = ''paid'' \<Longrightarrow> inv_total y = ''50.00'' \<Longrightarrow>
           getInvoiceStats exact ?st
           = \<lparr>totalInvoices = 2, totalRevenue = ''150.00'', pendingInvoices = 0, overdueInvoices = 0\<rparr>" for x y
    using getInvoiceStats_aggregates [of exact ?st]
    by (intro InvoiceStats.equality) (simp_all add: sum_amounts_def r)
  from s obtain x y where "map_values (invoices ?st) = [x, y]"
    "inv_status x = ''paid''" "inv_total x = ''100.00''" "inv_status y = ''paid''" "inv_total y = ''50.00''"
    by (auto simp: map_eq_Cons_conv)
  then show ?thesis by (rule v)
qed

end
